theory Spec2Isabelle
  imports Main
begin

section \<open>JavaScript values\<close>

text \<open>
  Messages, call options, step configurations and the declarative configuration objects
  handed to the registry are JavaScript values. Numbers are integers here (no NaN and no
  fractions); an object is the list of its own enumerable entries, in the order
  \<^verbatim>\<open>Object.entries\<close> yields them.
\<close>

datatype jsval =
    JUndefined
  | JNull
  | JBool bool
  | JNum int
  | JStr string
  | JArr "jsval list"
  | JObj "(string \<times> jsval) list"

text \<open>
  Every \<^verbatim>\<open>throw\<close> of the source is one constructor, carrying the values its message
  interpolates. The three \<^verbatim>\<open>TypeError_*\<close> constructors without argument are raised by
  the JavaScript runtime itself (reading a property of \<^verbatim>\<open>null\<close> or
  \<^verbatim>\<open>undefined\<close>, calling a non-function, \<^verbatim>\<open>new\<close> on a non-constructor);
  \<open>Thrown\<close> is whatever external code (a module loader, a plugin, a transport) throws.
\<close>

datatype error =
    Error_NoRequire string
  | TypeError_InvalidRequire string
  | Error_NoDecorate string
  | Error_NoConfigure string
  | Error_RulesNotArray string
  | Error_NoDecorator string
  | Error_NonExistentDecorator string jsval
  | Error_NoIdentifier
  | Error_NoDecorations jsval
  | TypeError_Nullish
  | TypeError_NotAFunction
  | TypeError_NotAConstructor
  | Thrown jsval

fun and_then :: "error + 'a \<Rightarrow> ('a \<Rightarrow> error + 'b) \<Rightarrow> error + 'b" where
  "and_then (Inl e) f = Inl e"
| "and_then (Inr x) f = f x"

text \<open>JavaScript truthiness: what \<^verbatim>\<open>!x\<close> and \<^verbatim>\<open>x || y\<close> test.\<close>

fun truthy :: "jsval \<Rightarrow> bool" where
  "truthy JUndefined = False"
| "truthy JNull = False"
| "truthy (JBool b) = b"
| "truthy (JNum n) = (n \<noteq> 0)"
| "truthy (JStr s) = (s \<noteq> [])"
| "truthy (JArr xs) = True"
| "truthy (JObj kvs) = True"

text \<open>\<^verbatim>\<open>x || {}\<close>\<close>

definition or_empty_object :: "jsval \<Rightarrow> jsval" where
  "or_empty_object x = (if truthy x then x else JObj [])"

text \<open>
  \<^verbatim>\<open>v.k\<close> for the keys the source reads (\<^verbatim>\<open>require\<close>, \<^verbatim>\<open>config\<close>,
  \<^verbatim>\<open>decorator\<close>): none of them is a built-in property of a primitive or an array, so
  only an object can answer with something else than \<^verbatim>\<open>undefined\<close>, and reading from
  \<^verbatim>\<open>null\<close> or \<^verbatim>\<open>undefined\<close> throws.
\<close>

definition get_prop :: "jsval \<Rightarrow> string \<Rightarrow> error + jsval" where
  "get_prop v k =
     (case v of
        JUndefined \<Rightarrow> Inl TypeError_Nullish
      | JNull \<Rightarrow> Inl TypeError_Nullish
      | JObj kvs \<Rightarrow> Inr (case map_of kvs k of None \<Rightarrow> JUndefined | Some x \<Rightarrow> x)
      | _ \<Rightarrow> Inr JUndefined)"

text \<open>
  \<^verbatim>\<open>v.hasOwnProperty(k)\<close>, for a key that is neither an index nor \<^verbatim>\<open>length\<close>. An
  object whose own entries define \<^verbatim>\<open>hasOwnProperty\<close> shadows the inherited method with
  a value that is not a function, and the call throws.
\<close>

definition hasOwnProperty :: "jsval \<Rightarrow> string \<Rightarrow> error + bool" where
  "hasOwnProperty v k =
     (case v of
        JUndefined \<Rightarrow> Inl TypeError_Nullish
      | JNull \<Rightarrow> Inl TypeError_Nullish
      | JObj kvs \<Rightarrow>
          (if ''hasOwnProperty'' \<in> set (map fst kvs) then Inl TypeError_NotAFunction
           else Inr (k \<in> set (map fst kvs)))
      | _ \<Rightarrow> Inr False)"

text \<open>
  The registry's three \<^verbatim>\<open>Map\<close>s are only ever written with string keys (the keys of a
  configuration object). \<^verbatim>\<open>Map.prototype.get\<close> and \<^verbatim>\<open>has\<close> compare keys without
  coercion, so a key that is not a string finds nothing.
\<close>

definition map_get :: "(string \<rightharpoonup> 'a) \<Rightarrow> jsval \<Rightarrow> 'a option" where
  "map_get m k = (case k of JStr s \<Rightarrow> m s | _ \<Rightarrow> None)"

definition map_has :: "(string \<rightharpoonup> 'a) \<Rightarrow> jsval \<Rightarrow> bool" where
  "map_has m k = (map_get m k \<noteq> None)"

text \<open>\<^verbatim>\<open>Array.prototype.reduce\<close> with an initial value; an exception in the callback ends it.\<close>

fun reduce :: "('a \<Rightarrow> 'b \<Rightarrow> error + 'a) \<Rightarrow> 'a \<Rightarrow> 'b list \<Rightarrow> error + 'a" where
  "reduce f acc [] = Inr acc"
| "reduce f acc (x # xs) = (case f acc x of Inl e \<Rightarrow> Inl e | Inr acc' \<Rightarrow> reduce f acc' xs)"

text \<open>
  \<^verbatim>\<open>s.split(".")\<close>, as its first segment and the remaining ones (the result is never
  empty).
\<close>

fun split_dot :: "string \<Rightarrow> string \<times> string list" where
  "split_dot [] = ([], [])"
| "split_dot (c # cs) =
     (case split_dot cs of
        (p, ps) \<Rightarrow> if c = CHR ''.'' then ([], p # ps) else (c # p, ps))"

section \<open>Transport decorators (plugins)\<close>

text \<open>
  A TransportDecorator instance is external code with three entry points: its constructor,
  \<^verbatim>\<open>configure(config)\<close> and \<^verbatim>\<open>decorate(message, config, options)\<close>. The model keeps
  what the registry can observe: whether the two capabilities are present
  (\<^verbatim>\<open>"decorate" in instance\<close>), the \<^verbatim>\<open>name\<close> the registry writes on the instance, the
  arguments of the \<^verbatim>\<open>configure\<close> calls made so far, whether a \<^verbatim>\<open>configure\<close> call
  throws, and what \<^verbatim>\<open>decorate\<close> returns or throws; both may depend on the instance's
  name and on how it was configured before. \<^verbatim>\<open>decorate\<close> itself does not change the
  instance, and a \<^verbatim>\<open>configure\<close> call that returns is recorded.
\<close>

record plugin =
  has_decorate :: bool
  has_configure :: bool
  name :: "string option"
  configured :: "jsval list"
  configure_impl :: "string option \<Rightarrow> jsval list \<Rightarrow> jsval \<Rightarrow> error option"
  decorate_impl :: "string option \<Rightarrow> jsval list \<Rightarrow> jsval \<Rightarrow> jsval \<Rightarrow> jsval \<Rightarrow> error + jsval"

text \<open>\<^verbatim>\<open>instance.configure(config)\<close>\<close>

definition configure :: "plugin \<Rightarrow> jsval \<Rightarrow> error + plugin" where
  "configure p c =
     (case configure_impl p (name p) (configured p) c of
        Some e \<Rightarrow> Inl e
      | None \<Rightarrow> Inr (p\<lparr>configured := configured p @ [c]\<rparr>))"

text \<open>
  \<^verbatim>\<open>x.decorate(message, config, options)\<close> where \<open>x\<close> is the result of a
  \<^verbatim>\<open>Map.prototype.get\<close>: \<^verbatim>\<open>undefined\<close> when the name is not registered.
\<close>

definition call_decorate :: "plugin option \<Rightarrow> jsval \<Rightarrow> jsval \<Rightarrow> jsval \<Rightarrow> error + jsval" where
  "call_decorate x message config options =
     (case x of
        None \<Rightarrow> Inl TypeError_Nullish
      | Some p \<Rightarrow>
          if has_decorate p then decorate_impl p (name p) (configured p) message config options
          else Inl TypeError_NotAFunction)"

text \<open>
  A value obtained from a module is modelled by what \<^verbatim>\<open>new\<close> does with it: the fresh
  instance, or the exception (\<open>TypeError_NotAConstructor\<close> for a value that is not a
  constructor, such as a missing export).
\<close>

type_synonym js_class = "error + plugin"

section \<open>The registry\<close>

text \<open>
  The source file holds two variants of the class. They share the constructor,
  \<^verbatim>\<open>loadDecorators\<close> and \<^verbatim>\<open>getRules\<close>; the first variant adds the
  \<^verbatim>\<open>decorations\<close> map of compiled functions. The second variant's state is
  \<open>registry_base\<close>, the first variant's state is its extension \<open>registry\<close>.

  A compiled decoration function is a closure over \<^verbatim>\<open>this\<close>: when it is called it
  reads \<^verbatim>\<open>this.decorators\<close> as it is at that moment. The model makes this explicit: a
  \<open>decoration\<close> takes the registry's \<open>decorators\<close> map at the time of the call as
  its first argument.
\<close>

type_synonym decoration = "(string \<rightharpoonup> plugin) \<Rightarrow> jsval \<Rightarrow> jsval \<Rightarrow> error + jsval"

record registry_base =
  decorators :: "string \<rightharpoonup> plugin"
  rules :: "string \<rightharpoonup> jsval list"

record registry = registry_base +
  decorations :: "string \<rightharpoonup> decoration"

text \<open>The constructors.\<close>

definition new_registry_base :: registry_base where
  "new_registry_base = \<lparr>decorators = Map.empty, rules = Map.empty\<rparr>"

definition new_registry :: registry where
  "new_registry = \<lparr>decorators = Map.empty, rules = Map.empty, decorations = Map.empty\<rparr>"

subsection \<open>loadDecorators\<close>

text \<open>
  The three forms of \<^verbatim>\<open>settings.require\<close>. \<open>node_require\<close> is Node's global
  \<^verbatim>\<open>require\<close>, \<open>requireFn\<close> the injected one; both may throw. \<open>requireFn m\<close>
  answers with the module's exports, read by name. The destructuring
  \<^verbatim>\<open>[moduleName, exportName] = settings.require.split(".")\<close> takes the first two segments;
  with a single segment \<^verbatim>\<open>exportName\<close> would be \<^verbatim>\<open>undefined\<close> and the property read
  would be named so, which cannot happen in this branch (\<open>split_dot_second\<close>).
\<close>

definition resolve ::
  "(string \<Rightarrow> error + js_class) \<Rightarrow> (string \<Rightarrow> error + (string \<Rightarrow> js_class)) \<Rightarrow> string \<Rightarrow> string
     \<Rightarrow> error + js_class" where
  "resolve node_require requireFn rootPath req =
     (if (case req of [] \<Rightarrow> False | c # _ \<Rightarrow> c = CHR ''.'') then
        node_require (rootPath @ ''/'' @ req)
      else if CHR ''.'' \<notin> set req then
        node_require req
      else
        (case split_dot req of
           (moduleName, rest) \<Rightarrow>
             (let exportName = (case rest of [] \<Rightarrow> ''undefined'' | e # _ \<Rightarrow> e)
              in and_then (requireFn moduleName) (\<lambda>exports. Inr (exports exportName)))))"

text \<open>
  The body of the loop of \<^verbatim>\<open>loadDecorators\<close> for one entry, up to the instance that
  \<^verbatim>\<open>this.decorators.set(name, instance)\<close> stores.
\<close>

definition load_decorator ::
  "(string \<Rightarrow> error + js_class) \<Rightarrow> (string \<Rightarrow> error + (string \<Rightarrow> js_class)) \<Rightarrow> string
     \<Rightarrow> string \<times> jsval \<Rightarrow> error + plugin" where
  "load_decorator node_require requireFn rootPath entry =
     (case entry of (nm, settings) \<Rightarrow>
        and_then (hasOwnProperty settings ''require'') (\<lambda>has.
          if \<not> has then Inl (Error_NoRequire nm)
          else and_then (get_prop settings ''require'') (\<lambda>rq.
            case rq of
              JStr req \<Rightarrow>
                and_then (get_prop settings ''config'') (\<lambda>cfg.
                  let sourceConfig = or_empty_object cfg in
                  and_then (resolve node_require requireFn rootPath req) (\<lambda>decorator.
                    and_then decorator (\<lambda>instance.
                      if \<not> has_decorate instance then Inl (Error_NoDecorate nm)
                      else if \<not> has_configure instance then Inl (Error_NoConfigure nm)
                      else configure (instance\<lparr>name := Some nm\<rparr>) sourceConfig)))
            | _ \<Rightarrow> Inl (TypeError_InvalidRequire nm))))"

text \<open>
  \<^verbatim>\<open>loadDecorators(requireFn, rootPath, config = {})\<close>, with Node's \<^verbatim>\<open>require\<close> as
  a further argument. \<open>config\<close> is \<^verbatim>\<open>Object.entries(config)\<close>, the empty list when the
  argument is left out. An exception leaves the loop; the registry keeps what the earlier
  iterations have stored, so the state is returned beside the exception.
\<close>

fun loadDecorators ::
  "(string \<Rightarrow> error + js_class) \<Rightarrow> 'a registry_base_scheme
     \<Rightarrow> (string \<Rightarrow> error + (string \<Rightarrow> js_class)) \<Rightarrow> string \<Rightarrow> (string \<times> jsval) list
     \<Rightarrow> error option \<times> 'a registry_base_scheme" where
  "loadDecorators node_require r requireFn rootPath [] = (None, r)"
| "loadDecorators node_require r requireFn rootPath (entry # rest) =
     (case load_decorator node_require requireFn rootPath entry of
        Inl e \<Rightarrow> (Some e, r)
      | Inr instance \<Rightarrow>
          loadDecorators node_require (r\<lparr>decorators := (decorators r)(fst entry \<mapsto> instance)\<rparr>)
            requireFn rootPath rest)"

subsection \<open>Accessors\<close>

definition getDecorator :: "'a registry_base_scheme \<Rightarrow> jsval \<Rightarrow> plugin option" where
  "getDecorator r nm = map_get (decorators r) nm"

text \<open>
  \<^verbatim>\<open>getRules\<close>: the result is a JavaScript value, \<^verbatim>\<open>undefined\<close> being what
  \<^verbatim>\<open>Map.prototype.get\<close> answers for a key it does not hold.
\<close>

definition getRules :: "'a registry_base_scheme \<Rightarrow> jsval \<Rightarrow> jsval" where
  "getRules r ident =
     (if \<not> map_has (rules r) ident then JArr []
      else (case map_get (rules r) ident of None \<Rightarrow> JUndefined | Some rs \<Rightarrow> JArr rs))"

definition getDecoration :: "registry \<Rightarrow> jsval \<Rightarrow> decoration option" where
  "getDecoration r ident = map_get (decorations r) ident"

subsection \<open>loadRules (first variant: compiles at load time)\<close>

text \<open>The validation loop over the rules of one identifier.\<close>

fun check_rules :: "(string \<rightharpoonup> plugin) \<Rightarrow> string \<Rightarrow> jsval list \<Rightarrow> error option" where
  "check_rules ds ident [] = None"
| "check_rules ds ident (rule # rest) =
     (case get_prop rule ''decorator'' of
        Inl e \<Rightarrow> Some e
      | Inr decorator \<Rightarrow>
          if \<not> truthy decorator then Some (Error_NoDecorator ident)
          else if \<not> map_has ds decorator then Some (Error_NonExistentDecorator ident decorator)
          else check_rules ds ident rest)"

text \<open>
  \<^verbatim>\<open>rules.map(({ decorator, config }) => (message, options) => ...)\<close>: the destructuring
  reads \<^verbatim>\<open>decorator\<close> and \<^verbatim>\<open>config\<close> from the rule when the rules are loaded; the
  body of the arrow function runs at each call, and there
  \<^verbatim>\<open>this.getDecorator(decorator)\<close> is \<^verbatim>\<open>this.decorators.get(decorator)\<close> on the
  registry as it is then (\<open>ds\<close>).
\<close>

definition decorator_function :: "jsval \<Rightarrow> error + decoration" where
  "decorator_function rule =
     and_then (get_prop rule ''decorator'') (\<lambda>decorator.
       and_then (get_prop rule ''config'') (\<lambda>config.
         Inr (\<lambda>ds message options.
                call_decorate (map_get ds decorator) message (or_empty_object config) options)))"

fun decoratorFunctions :: "jsval list \<Rightarrow> error + decoration list" where
  "decoratorFunctions [] = Inr []"
| "decoratorFunctions (rule # rest) =
     and_then (decorator_function rule) (\<lambda>f.
       and_then (decoratorFunctions rest) (\<lambda>fs. Inr (f # fs)))"

text \<open>
  \<^verbatim>\<open>(message, options = {}) => decoratorFunctions.reduce((acc, decorator) =>
  decorator(acc, options), message)\<close>: the default applies when \<^verbatim>\<open>options\<close> is
  \<^verbatim>\<open>undefined\<close>.
\<close>

definition default_options :: "jsval \<Rightarrow> jsval" where
  "default_options options = (if options = JUndefined then JObj [] else options)"

definition decorateMessage :: "decoration list \<Rightarrow> decoration" where
  "decorateMessage fs ds message options =
     reduce (\<lambda>acc decorator. decorator ds acc (default_options options)) message fs"

text \<open>
  The body of the loop of \<^verbatim>\<open>loadRules\<close> for one entry, and \<^verbatim>\<open>loadRules(config = {})\<close>
  over \<^verbatim>\<open>Object.entries(config)\<close>; as in \<open>loadDecorators\<close>, the registry is returned
  beside the exception.
\<close>

definition load_rules_entry :: "registry \<Rightarrow> string \<times> jsval \<Rightarrow> error option \<times> registry" where
  "load_rules_entry r entry =
     (case entry of (ident, rv) \<Rightarrow>
        (case rv of
           JArr rs \<Rightarrow>
             (case check_rules (decorators r) ident rs of
                Some e \<Rightarrow> (Some e, r)
              | None \<Rightarrow>
                  (case decoratorFunctions rs of
                     Inl e \<Rightarrow> (Some e, r)
                   | Inr fs \<Rightarrow>
                       (None, r\<lparr>rules := (rules r)(ident \<mapsto> rs),
                                 decorations := (decorations r)(ident \<mapsto> decorateMessage fs)\<rparr>)))
         | _ \<Rightarrow> (Some (Error_RulesNotArray ident), r)))"

fun loadRules :: "registry \<Rightarrow> (string \<times> jsval) list \<Rightarrow> error option \<times> registry" where
  "loadRules r [] = (None, r)"
| "loadRules r (entry # rest) =
     (case load_rules_entry r entry of
        (Some e, r') \<Rightarrow> (Some e, r')
      | (None, r') \<Rightarrow> loadRules r' rest)"

subsection \<open>decorate (first variant)\<close>

text \<open>
  A TransportStream class: its static \<^verbatim>\<open>identifier\<close> (\<open>stream_identifier\<close>), the effect of its
  \<^verbatim>\<open>write(message, options)\<close> on the state \<open>'s\<close> of the stream (which may throw), and
  whatever else it has, in the record's extension. Like every function of the program a
  \<^verbatim>\<open>write\<close> runs against the registry as it is at the call, so it takes the
  \<open>decorators\<close> map of that moment; a plain transport ignores it.
\<close>

record 's transport =
  stream_identifier :: jsval
  stream_write :: "(string \<rightharpoonup> plugin) \<Rightarrow> jsval \<Rightarrow> jsval \<Rightarrow> 's \<Rightarrow> error + 's"

definition decorate ::
  "registry \<Rightarrow> ('s, 'x) transport_scheme \<Rightarrow> error + ('s, 'x) transport_scheme" where
  "decorate r streamConstructor =
     (let ident = stream_identifier streamConstructor in
      if \<not> truthy ident then Inl Error_NoIdentifier
      else
        (case getDecoration r ident of
           None \<Rightarrow> Inl (Error_NoDecorations ident)
         | Some decoration \<Rightarrow>
             Inr (streamConstructor\<lparr>stream_write := (\<lambda>ds message options s.
                    case decoration ds message options of
                      Inl e \<Rightarrow> Inl e
                    | Inr message' \<Rightarrow> stream_write streamConstructor ds message' options s)\<rparr>)))"

subsection \<open>The second variant: loadRules stores, decorate composes\<close>

definition load_rules_entry_lazy ::
  "registry_base \<Rightarrow> string \<times> jsval \<Rightarrow> error option \<times> registry_base" where
  "load_rules_entry_lazy r entry =
     (case entry of (ident, rv) \<Rightarrow>
        (case rv of
           JArr rs \<Rightarrow>
             (case check_rules (decorators r) ident rs of
                Some e \<Rightarrow> (Some e, r)
              | None \<Rightarrow> (None, r\<lparr>rules := (rules r)(ident \<mapsto> rs)\<rparr>))
         | _ \<Rightarrow> (Some (Error_RulesNotArray ident), r)))"

fun loadRules_lazy :: "registry_base \<Rightarrow> (string \<times> jsval) list \<Rightarrow> error option \<times> registry_base" where
  "loadRules_lazy r [] = (None, r)"
| "loadRules_lazy r (entry # rest) =
     (case load_rules_entry_lazy r entry of
        (Some e, r') \<Rightarrow> (Some e, r')
      | (None, r') \<Rightarrow> loadRules_lazy r' rest)"

text \<open>
  \<^verbatim>\<open>({ decorator, config }) => message => this.decorators.get(decorator).decorate(message,
  config || {})\<close>: the plugin receives no third argument, so its \<^verbatim>\<open>options\<close> are
  \<^verbatim>\<open>undefined\<close>.
\<close>

definition decorator_function_lazy ::
  "jsval \<Rightarrow> error + ((string \<rightharpoonup> plugin) \<Rightarrow> jsval \<Rightarrow> error + jsval)" where
  "decorator_function_lazy rule =
     and_then (get_prop rule ''decorator'') (\<lambda>decorator.
       and_then (get_prop rule ''config'') (\<lambda>config.
         Inr (\<lambda>ds message.
                call_decorate (map_get ds decorator) message (or_empty_object config) JUndefined)))"

fun decoratorFunctions_lazy ::
  "jsval list \<Rightarrow> error + ((string \<rightharpoonup> plugin) \<Rightarrow> jsval \<Rightarrow> error + jsval) list" where
  "decoratorFunctions_lazy [] = Inr []"
| "decoratorFunctions_lazy (rule # rest) =
     and_then (decorator_function_lazy rule) (\<lambda>f.
       and_then (decoratorFunctions_lazy rest) (\<lambda>fs. Inr (f # fs)))"

definition decorate_lazy ::
  "registry_base \<Rightarrow> ('s, 'x) transport_scheme \<Rightarrow> error + ('s, 'x) transport_scheme" where
  "decorate_lazy r streamConstructor =
     (let ident = stream_identifier streamConstructor in
      if \<not> truthy ident then Inl Error_NoIdentifier
      else
        (case getRules r ident of
           JArr rs \<Rightarrow>
             and_then (decoratorFunctions_lazy rs) (\<lambda>fs.
               Inr (streamConstructor\<lparr>stream_write := (\<lambda>ds message encoding s.
                      case reduce (\<lambda>acc f. f ds acc) message fs of
                        Inl e \<Rightarrow> Inl e
                      | Inr message' \<Rightarrow> stream_write streamConstructor ds message' encoding s)\<rparr>))
         | _ \<Rightarrow> Inl TypeError_NotAFunction))"

section \<open>Running a decoration, writing through a decorated transport\<close>

text \<open>
  \<^verbatim>\<open>d(message, options)\<close> for a \<open>d\<close> obtained from \<^verbatim>\<open>getDecoration\<close>, called while
  the registry is in state \<open>r\<close>.
\<close>

definition run_decoration :: "registry \<Rightarrow> decoration option \<Rightarrow> jsval \<Rightarrow> jsval \<Rightarrow> error + jsval" where
  "run_decoration r d message options =
     (case d of None \<Rightarrow> Inl TypeError_NotAFunction | Some f \<Rightarrow> f (decorators r) message options)"

text \<open>
  \<^verbatim>\<open>new D().write(message, options)\<close> for the class \<open>D\<close> a \<^verbatim>\<open>decorate\<close> call has
  returned (or the exception of that call), on a stream in state \<open>s\<close>, while the registry's
  plugins are \<open>ds\<close>.
\<close>

definition write_decorated ::
  "error + ('s, 'x) transport_scheme \<Rightarrow> (string \<rightharpoonup> plugin) \<Rightarrow> jsval \<Rightarrow> jsval \<Rightarrow> 's \<Rightarrow> error + 's" where
  "write_decorated d ds message options s = and_then d (\<lambda>t. stream_write t ds message options s)"

section \<open>Example plugins, modules and transports\<close>

text \<open>A decorator class whose \<^verbatim>\<open>decorate\<close> appends a suffix to a string message.\<close>

definition suffix_plugin :: "string \<Rightarrow> plugin" where
  "suffix_plugin sfx =
     \<lparr>has_decorate = True, has_configure = True, name = None, configured = [],
      configure_impl = (\<lambda>nm cs c. None),
      decorate_impl = (\<lambda>nm cs message config options.
        case message of JStr s \<Rightarrow> Inr (JStr (s @ sfx)) | _ \<Rightarrow> Inr message)\<rparr>"

text \<open>A decorator class whose \<^verbatim>\<open>decorate\<close> answers with the call options it was given.\<close>

definition options_plugin :: plugin where
  "options_plugin =
     \<lparr>has_decorate = True, has_configure = True, name = None, configured = [],
      configure_impl = (\<lambda>nm cs c. None),
      decorate_impl = (\<lambda>nm cs message config options. Inr options)\<rparr>"

text \<open>Classes that lack one of the two methods.\<close>

definition no_decorate_plugin :: plugin where
  "no_decorate_plugin = (suffix_plugin [])\<lparr>has_decorate := False\<rparr>"

definition no_configure_plugin :: plugin where
  "no_configure_plugin = (suffix_plugin [])\<lparr>has_configure := False\<rparr>"

text \<open>The modules Node's \<^verbatim>\<open>require\<close> finds, and those the injected \<^verbatim>\<open>requireFn\<close> finds.\<close>

definition example_require :: "string \<Rightarrow> error + js_class" where
  "example_require path =
     (if path = ''suffix-a'' then Inr (Inr (suffix_plugin ''a''))
      else if path = ''suffix-b'' then Inr (Inr (suffix_plugin ''b''))
      else if path = ''/srv/./options'' then Inr (Inr options_plugin)
      else if path = ''no-decorate'' then Inr (Inr no_decorate_plugin)
      else if path = ''no-configure'' then Inr (Inr no_configure_plugin)
      else Inl (Thrown (JStr ''MODULE_NOT_FOUND'')))"

definition example_requireFn :: "string \<Rightarrow> error + (string \<Rightarrow> js_class)" where
  "example_requireFn m =
     (if m = ''pkg'' then
        Inr (\<lambda>e. if e = ''Bang'' then Inr (suffix_plugin ''!'') else Inl TypeError_NotAConstructor)
      else Inl (Thrown (JStr ''MODULE_NOT_FOUND'')))"

text \<open>A transport whose \<^verbatim>\<open>write\<close> appends the message and the options to a log.\<close>

definition log_transport :: "jsval \<Rightarrow> (jsval \<times> jsval) list transport" where
  "log_transport ident =
     \<lparr>stream_identifier = ident,
      stream_write = (\<lambda>ds message options s. Inr (s @ [(message, options)]))\<rparr>"

text \<open>A transport class with a further static member, to observe what \<^verbatim>\<open>decorate\<close> keeps.\<close>

record 's labelled_transport = "'s transport" +
  label :: string

definition labelled_log_transport :: "jsval \<Rightarrow> string \<Rightarrow> (jsval \<times> jsval) list labelled_transport" where
  "labelled_log_transport ident l =
     \<lparr>stream_identifier = ident,
      stream_write = (\<lambda>ds message options s. Inr (s @ [(message, options)])),
      label = l\<rparr>"

text \<open>\<^verbatim>\<open>{ [nm]: { require: req } }\<close> and \<^verbatim>\<open>{ decorator: d }\<close>\<close>

definition plugin_spec :: "string \<Rightarrow> string \<Rightarrow> string \<times> jsval" where
  "plugin_spec nm req = (nm, JObj [(''require'', JStr req)])"

definition rule_for :: "string \<Rightarrow> jsval" where
  "rule_for d = JObj [(''decorator'', JStr d)]"

text \<open>
  A registry with the plugins \<^verbatim>\<open>a\<close>, \<^verbatim>\<open>b\<close> and \<^verbatim>\<open>opts\<close>, in both variants, then
  with the rules \<^verbatim>\<open>{ file: [a, b], console: [opts] }\<close>.
\<close>

definition example_plugins :: "(string \<times> jsval) list" where
  "example_plugins =
     [plugin_spec ''a'' ''suffix-a'', plugin_spec ''b'' ''suffix-b'',
      (''opts'', JObj [(''require'', JStr ''./options''), (''config'', JObj [(''k'', JNum 1)])])]"

definition example_rules :: "(string \<times> jsval) list" where
  "example_rules =
     [(''file'', JArr [rule_for ''a'', rule_for ''b'']), (''console'', JArr [rule_for ''opts''])]"

definition plugins_loaded :: registry where
  "plugins_loaded = snd (loadDecorators example_require new_registry example_requireFn ''/srv'' example_plugins)"

definition rules_loaded :: registry where
  "rules_loaded = snd (loadRules plugins_loaded example_rules)"

definition plugins_loaded_lazy :: registry_base where
  "plugins_loaded_lazy =
     snd (loadDecorators example_require new_registry_base example_requireFn ''/srv'' example_plugins)"

definition rules_loaded_lazy :: registry_base where
  "rules_loaded_lazy = snd (loadRules_lazy plugins_loaded_lazy example_rules)"

text \<open>The plugin \<^verbatim>\<open>a\<close> registered again, from another module.\<close>

definition reregistered :: registry where
  "reregistered =
     snd (loadDecorators example_require rules_loaded example_requireFn ''/srv''
            [plugin_spec ''a'' ''pkg.Bang''])"

text \<open>
  Further rules on the same plugins: \<^verbatim>\<open>{ long: [a, b, a], echo: [opts, a] }\<close>.
\<close>

definition more_rules :: "(string \<times> jsval) list" where
  "more_rules =
     [(''long'', JArr [rule_for ''a'', rule_for ''b'', rule_for ''a'']),
      (''echo'', JArr [rule_for ''opts'', rule_for ''a''])]"

definition more_loaded :: registry where
  "more_loaded = snd (loadRules plugins_loaded more_rules)"

section \<open>Auxiliary facts\<close>

lemmas js_defs =
  hasOwnProperty_def get_prop_def or_empty_object_def map_get_def map_has_def
  default_options_def call_decorate_def configure_def

lemmas load_defs =
  load_decorator_def resolve_def load_rules_entry_def load_rules_entry_lazy_def
  decorator_function_def decorator_function_lazy_def decorateMessage_def

lemmas example_defs =
  suffix_plugin_def options_plugin_def no_decorate_plugin_def no_configure_plugin_def
  example_require_def example_requireFn_def log_transport_def plugin_spec_def rule_for_def
  example_plugins_def example_rules_def new_registry_def new_registry_base_def

text \<open>
  \<^verbatim>\<open>config || {}\<close> is the configuration itself when it is an object (any truthy value),
  and \<^verbatim>\<open>{}\<close> when it is absent.
\<close>

lemma or_empty_object_cases:
  "or_empty_object (JObj kvs) = JObj kvs"
  "or_empty_object JUndefined = JObj []"
  "truthy x \<Longrightarrow> or_empty_object x = x"
  by (simp_all add: or_empty_object_def)

lemma split_dot_second: "CHR ''.'' \<in> set s \<Longrightarrow> snd (split_dot s) \<noteq> []"
  by (induction s) (auto split: prod.splits)

lemma split_dot_example: "split_dot ''pkg.Bang'' = (''pkg'', [''Bang''])"
  by simp

lemma and_then_Inr_iff:
  "and_then x f = Inr y \<longleftrightarrow> (\<exists>v. x = Inr v \<and> f v = Inr y)"
  by (cases x) auto

lemma load_rules_entry_failure: "load_rules_entry r e = (Some err, r') \<Longrightarrow> r' = r"
  by (auto simp: load_rules_entry_def split: prod.splits jsval.splits option.splits sum.splits)

lemma load_rules_entry_decorators: "load_rules_entry r e = (eo, r') \<Longrightarrow> decorators r' = decorators r"
  by (auto simp: load_rules_entry_def split: prod.splits jsval.splits option.splits sum.splits)

lemma load_rules_entry_other:
  "load_rules_entry r e = (eo, r') \<Longrightarrow> i \<noteq> fst e \<Longrightarrow>
     rules r' i = rules r i \<and> decorations r' i = decorations r i"
  by (auto simp: load_rules_entry_def split: prod.splits jsval.splits option.splits sum.splits)

lemma load_rules_entry_success:
  "load_rules_entry r (ident, rv) = (None, r') \<Longrightarrow>
     \<exists>rs fs. rv = JArr rs \<and> check_rules (decorators r) ident rs = None \<and>
       decoratorFunctions rs = Inr fs \<and>
       r' = r\<lparr>rules := (rules r)(ident \<mapsto> rs),
              decorations := (decorations r)(ident \<mapsto> decorateMessage fs)\<rparr>"
  by (auto simp: load_rules_entry_def split: jsval.splits option.splits sum.splits)

lemma loadRules_decorators: "loadRules r cfg = (eo, r') \<Longrightarrow> decorators r' = decorators r"
proof (induction cfg arbitrary: r)
  case Nil
  then show ?case by simp
next
  case (Cons e cfg)
  obtain x r1 where e1: "load_rules_entry r e = (x, r1)"
    by fastforce
  note d1 = load_rules_entry_decorators[OF e1]
  show ?case
  proof (cases x)
    case None
    with Cons.prems e1 have "loadRules r1 cfg = (eo, r')" by simp
    from Cons.IH[OF this] d1 show ?thesis by simp
  next
    case (Some a)
    with Cons.prems e1 d1 show ?thesis by auto
  qed
qed

lemma loadRules_other:
  "loadRules r cfg = (eo, r') \<Longrightarrow> i \<notin> fst ` set cfg \<Longrightarrow>
     rules r' i = rules r i \<and> decorations r' i = decorations r i"
proof (induction cfg arbitrary: r)
  case Nil
  then show ?case by simp
next
  case (Cons e cfg)
  obtain x r1 where e1: "load_rules_entry r e = (x, r1)"
    by fastforce
  from Cons.prems have ne: "i \<noteq> fst e" and ni: "i \<notin> fst ` set cfg" by auto
  note o1 = load_rules_entry_other[OF e1 ne]
  show ?case
  proof (cases x)
    case None
    with Cons.prems e1 have "loadRules r1 cfg = (eo, r')" by simp
    from Cons.IH[OF this ni] o1 show ?thesis by simp
  next
    case (Some a)
    with Cons.prems e1 o1 show ?thesis by auto
  qed
qed

lemma loadRules_append:
  "loadRules r (xs @ ys) =
     (case loadRules r xs of (Some e, r') \<Rightarrow> (Some e, r') | (None, r') \<Rightarrow> loadRules r' ys)"
  by (induction xs arbitrary: r) (auto split: prod.splits option.splits)

lemma loadRules_success_prefix:
  "loadRules r (xs @ ys) = (None, r') \<Longrightarrow> \<exists>r1. loadRules r xs = (None, r1) \<and> loadRules r1 ys = (None, r')"
  by (auto simp: loadRules_append split: prod.splits option.splits)

lemma loadRules_success_entry:
  assumes ok: "loadRules r cfg = (None, r')"
    and dist: "distinct (map fst cfg)"
    and mem: "(ident, rv) \<in> set cfg"
  shows "\<exists>rs fs. rv = JArr rs \<and> check_rules (decorators r) ident rs = None \<and>
           decoratorFunctions rs = Inr fs \<and> rules r' ident = Some rs \<and>
           decorations r' ident = Some (decorateMessage fs)"
proof -
  from mem obtain pre post where cfg: "cfg = pre @ (ident, rv) # post"
    by (auto dest: split_list)
  from dist cfg have notin: "ident \<notin> fst ` set post" by auto
  from ok cfg obtain r1 where p1: "loadRules r pre = (None, r1)"
    and p2: "loadRules r1 ((ident, rv) # post) = (None, r')"
    using loadRules_success_prefix by blast
  from p2 obtain r2 where e: "load_rules_entry r1 (ident, rv) = (None, r2)"
    and p3: "loadRules r2 post = (None, r')"
    by (auto split: prod.splits option.splits)
  from load_rules_entry_success[OF e] obtain rs fs where
    rv: "rv = JArr rs" and chk: "check_rules (decorators r1) ident rs = None"
    and fs: "decoratorFunctions rs = Inr fs"
    and r2: "r2 = r1\<lparr>rules := (rules r1)(ident \<mapsto> rs),
              decorations := (decorations r1)(ident \<mapsto> decorateMessage fs)\<rparr>"
    by blast
  from loadRules_other[OF p3 notin] r2
  have "rules r' ident = Some rs" "decorations r' ident = Some (decorateMessage fs)" by simp_all
  with rv chk fs loadRules_decorators[OF p1] show ?thesis by simp
qed

subsection \<open>The example registries, evaluated\<close>

lemma plugins_loaded_ok:
  "loadDecorators example_require new_registry example_requireFn ''/srv'' example_plugins
     = (None, plugins_loaded)"
  by (simp add: plugins_loaded_def js_defs load_defs example_defs)

lemma plugins_loaded_fields:
  "decorators plugins_loaded =
     [''a'' \<mapsto> (suffix_plugin ''a'')\<lparr>name := Some ''a'', configured := [JObj []]\<rparr>,
      ''b'' \<mapsto> (suffix_plugin ''b'')\<lparr>name := Some ''b'', configured := [JObj []]\<rparr>,
      ''opts'' \<mapsto> options_plugin\<lparr>name := Some ''opts'', configured := [JObj [(''k'', JNum 1)]]\<rparr>]"
  "rules plugins_loaded = Map.empty"
  "decorations plugins_loaded = Map.empty"
  by (simp_all add: plugins_loaded_def js_defs load_defs example_defs)

lemma rules_loaded_ok: "loadRules plugins_loaded example_rules = (None, rules_loaded)"
  by (simp add: rules_loaded_def plugins_loaded_fields js_defs load_defs example_rules_def rule_for_def)

lemma rules_loaded_fields:
  "decorators rules_loaded = decorators plugins_loaded"
  "rules rules_loaded = [''file'' \<mapsto> [rule_for ''a'', rule_for ''b''], ''console'' \<mapsto> [rule_for ''opts'']]"
  "decorations rules_loaded ''other'' = None"
  "run_decoration r (decorations rules_loaded ''file'') m opts =
     and_then (call_decorate (decorators r ''a'') m (JObj []) (default_options opts))
       (\<lambda>m1. call_decorate (decorators r ''b'') m1 (JObj []) (default_options opts))"
  "run_decoration r (decorations rules_loaded ''console'') m opts =
     call_decorate (decorators r ''opts'') m (JObj []) (default_options opts)"
     apply (simp_all add: rules_loaded_def plugins_loaded_fields load_defs example_rules_def rule_for_def
         get_prop_def or_empty_object_def map_get_def map_has_def run_decoration_def)
  apply (auto split: sum.splits)
  done

lemma run_decoration_file:
  "run_decoration r (decorations rules_loaded ''file'') m opts =
     and_then (call_decorate (decorators r ''a'') m (JObj []) (default_options opts))
       (\<lambda>m1. call_decorate (decorators r ''b'') m1 (JObj []) (default_options opts))"
  by (rule rules_loaded_fields)

lemma run_decoration_console:
  "run_decoration r (decorations rules_loaded ''console'') m opts =
     call_decorate (decorators r ''opts'') m (JObj []) (default_options opts)"
  by (rule rules_loaded_fields)

lemma and_then_case: "and_then x f = (case x of Inl e \<Rightarrow> Inl e | Inr v \<Rightarrow> f v)"
  by (cases x) simp_all

lemma rules_loaded_compiled:
  "\<exists>d. decorations rules_loaded ''file'' = Some d"
  "\<exists>d. decorations rules_loaded ''console'' = Some d"
  using loadRules_success_entry[OF rules_loaded_ok, of "''file''"]
    loadRules_success_entry[OF rules_loaded_ok, of "''console''"]
  by (auto simp: example_rules_def)

section \<open>getRules\<close>

lemma getRules_after_loadRules:
  assumes "loadRules r cfg = (None, r')" and "distinct (map fst cfg)" and "(ident, JArr rs) \<in> set cfg"
  shows "getRules r' (JStr ident) = JArr rs"
  using loadRules_success_entry[OF assms] by (auto simp: getRules_def map_has_def map_get_def)

lemma getRules_new_registry: "getRules new_registry ident = JArr []"
  by (simp add: getRules_def map_has_def map_get_def new_registry_def split: jsval.splits)

text \<open>
  C9. \<^verbatim>\<open>getRules(identifier)\<close> always answers with an array, never with
  \<^verbatim>\<open>undefined\<close> and never with an exception: the empty array when the \<^verbatim>\<open>rules\<close> map
  holds nothing for the identifier (so for every identifier of a new registry, and for an
  identifier that is not a string), and the stored rule sequence when it does; after a
  \<^verbatim>\<open>loadRules\<close> call that returned, this is the array the call was given for the
  identifier.
\<close>

theorem getRules_returns_sequence:
  "getRules r ident = JArr (case map_get (rules r) ident of None \<Rightarrow> [] | Some rs \<Rightarrow> rs) \<and>
   getRules new_registry ident = JArr [] \<and>
   (\<forall>cfg r' i rs.
      loadRules r cfg = (None, r') \<and> distinct (map fst cfg) \<and> (i, JArr rs) \<in> set cfg \<longrightarrow>
        getRules r' (JStr i) = JArr rs)"
proof (intro conjI allI impI)
  show "getRules r ident = JArr (case map_get (rules r) ident of None \<Rightarrow> [] | Some rs \<Rightarrow> rs)"
    by (simp add: getRules_def map_has_def split: option.splits)
  show "getRules new_registry ident = JArr []"
    by (rule getRules_new_registry)
  show "getRules r' (JStr i) = JArr rs"
    if "loadRules r cfg = (None, r') \<and> distinct (map fst cfg) \<and> (i, JArr rs) \<in> set cfg"
    for cfg r' i rs
    using that getRules_after_loadRules[of r cfg r' i rs] by blast
qed

theorem getRules_returns_sequence_witness:
  "getRules rules_loaded (JStr ''file'') = JArr [rule_for ''a'', rule_for ''b''] \<and>
   getRules rules_loaded (JStr ''other'') = JArr [] \<and>
   getRules rules_loaded (JNum 3) = JArr [] \<and>
   getRules new_registry (JStr ''file'') = JArr []"
proof -
  note t = getRules_returns_sequence[of plugins_loaded]
  have "loadRules plugins_loaded example_rules = (None, rules_loaded) \<and>
        distinct (map fst example_rules) \<and>
        (''file'', JArr [rule_for ''a'', rule_for ''b'']) \<in> set example_rules"
    using rules_loaded_ok by (intro conjI) (simp_all add: example_rules_def)
  from t[THEN conjunct2, THEN conjunct2, THEN spec, THEN spec, THEN spec, THEN spec, THEN mp, OF this]
  have 1: "getRules rules_loaded (JStr ''file'') = JArr [rule_for ''a'', rule_for ''b'']" .
  from getRules_returns_sequence[of rules_loaded "JStr ''other''", THEN conjunct1]
  have 2: "getRules rules_loaded (JStr ''other'') = JArr []"
    by (simp add: map_get_def rules_loaded_fields(2))
  from getRules_returns_sequence[of rules_loaded "JNum 3", THEN conjunct1]
  have 3: "getRules rules_loaded (JNum 3) = JArr []"
    by (simp add: map_get_def)
  from getRules_returns_sequence[of new_registry "JStr ''file''", THEN conjunct2, THEN conjunct1]
  have 4: "getRules new_registry (JStr ''file'') = JArr []" .
  from 1 2 3 4 show ?thesis by (intro conjI)
qed

section \<open>decorate\<close>

lemma decorate_success:
  assumes "decorate r t = Inr t'"
  shows "\<exists>ident d. stream_identifier t = JStr ident \<and> ident \<noteq> [] \<and> decorations r ident = Some d \<and>
           t' = t\<lparr>stream_write := (\<lambda>ds message options s.
                    case d ds message options of
                      Inl e \<Rightarrow> Inl e
                    | Inr message' \<Rightarrow> stream_write t ds message' options s)\<rparr>"
proof -
  from assms have tr: "truthy (stream_identifier t)"
    by (auto simp: decorate_def Let_def split: if_splits)
  with assms obtain d where d: "getDecoration r (stream_identifier t) = Some d"
    and t': "t' = t\<lparr>stream_write := (\<lambda>ds message options s.
                    case d ds message options of
                      Inl e \<Rightarrow> Inl e
                    | Inr message' \<Rightarrow> stream_write t ds message' options s)\<rparr>"
    by (auto simp: decorate_def Let_def split: option.splits)
  from d obtain ident where i: "stream_identifier t = JStr ident" "decorations r ident = Some d"
    by (auto simp: getDecoration_def map_get_def split: jsval.splits)
  with tr t' show ?thesis by auto
qed

lemma decorate_compiled:
  assumes "stream_identifier t = JStr ident" and "ident \<noteq> []" and "decorations r ident = Some d"
  shows "decorate r t = Inr (t\<lparr>stream_write := (\<lambda>ds message options s.
                    case d ds message options of
                      Inl e \<Rightarrow> Inl e
                    | Inr message' \<Rightarrow> stream_write t ds message' options s)\<rparr>)"
  using assms by (simp add: decorate_def Let_def getDecoration_def map_get_def)

text \<open>
  C2. \<^verbatim>\<open>decorate\<close> throws when the descriptor's \<^verbatim>\<open>identifier\<close> is missing or empty
  (any falsy value), and throws when no decoration function has been compiled for the
  identifier; whenever it returns a class, the identifier is a non-empty string for which
  a compiled decoration is registered, and the returned class is the descriptor with its
  \<^verbatim>\<open>write\<close> replaced by one that runs that decoration first.
\<close>

theorem decorate_rejects_unidentified_or_uncompiled:
  "(\<not> truthy (stream_identifier t) \<longrightarrow> decorate r t = Inl Error_NoIdentifier) \<and>
   (truthy (stream_identifier t) \<and> getDecoration r (stream_identifier t) = None \<longrightarrow>
      decorate r t = Inl (Error_NoDecorations (stream_identifier t))) \<and>
   (\<forall>t'. decorate r t = Inr t' \<longrightarrow>
      (\<exists>ident d. stream_identifier t = JStr ident \<and> ident \<noteq> [] \<and>
         getDecoration r (JStr ident) = Some d \<and>
         (\<forall>ds m opts s. stream_write t' ds m opts s =
            and_then (d ds m opts) (\<lambda>m'. stream_write t ds m' opts s))))"
proof (intro conjI allI impI)
  show "decorate r t = Inl Error_NoIdentifier" if "\<not> truthy (stream_identifier t)"
    using that by (simp add: decorate_def)
  show "decorate r t = Inl (Error_NoDecorations (stream_identifier t))"
    if "truthy (stream_identifier t) \<and> getDecoration r (stream_identifier t) = None"
    using that by (simp add: decorate_def)
  show "\<exists>ident d. stream_identifier t = JStr ident \<and> ident \<noteq> [] \<and>
         getDecoration r (JStr ident) = Some d \<and>
         (\<forall>ds m opts s. stream_write t' ds m opts s =
            and_then (d ds m opts) (\<lambda>m'. stream_write t ds m' opts s))"
    if "decorate r t = Inr t'" for t'
  proof -
    from decorate_success[OF that] obtain ident d where
      "stream_identifier t = JStr ident" "ident \<noteq> []" "decorations r ident = Some d"
      and t': "t' = t\<lparr>stream_write := (\<lambda>ds message options s.
                    case d ds message options of
                      Inl e \<Rightarrow> Inl e
                    | Inr message' \<Rightarrow> stream_write t ds message' options s)\<rparr>"
      by blast
    moreover have "stream_write t' ds m opts s = and_then (d ds m opts) (\<lambda>m'. stream_write t ds m' opts s)"
      for ds m opts s
      unfolding t' by (simp add: and_then_case)
    ultimately show ?thesis
      by (auto simp: getDecoration_def map_get_def)
  qed
qed

theorem decorate_rejects_witness:
  "decorate rules_loaded (log_transport (JStr [])) = Inl Error_NoIdentifier \<and>
   decorate rules_loaded (log_transport (JStr ''other'')) = Inl (Error_NoDecorations (JStr ''other'')) \<and>
   (\<exists>t' d. decorate rules_loaded (log_transport (JStr ''file'')) = Inr t' \<and>
      getDecoration rules_loaded (JStr ''file'') = Some d \<and>
      stream_write t' (decorators rules_loaded) (JStr ''x'') JUndefined [] = Inr [(JStr ''xab'', JUndefined)])"
proof (intro conjI)
  show "decorate rules_loaded (log_transport (JStr [])) = Inl Error_NoIdentifier"
    using decorate_rejects_unidentified_or_uncompiled[of "log_transport (JStr [])" rules_loaded]
    by (simp add: log_transport_def)
  show "decorate rules_loaded (log_transport (JStr ''other'')) = Inl (Error_NoDecorations (JStr ''other''))"
    using decorate_rejects_unidentified_or_uncompiled[of "log_transport (JStr ''other'')" rules_loaded]
    by (simp add: log_transport_def getDecoration_def map_get_def rules_loaded_fields)
  obtain d0 where "decorations rules_loaded ''file'' = Some d0"
    using rules_loaded_compiled by blast
  then obtain t' where t': "decorate rules_loaded (log_transport (JStr ''file'')) = Inr t'"
    using decorate_compiled[of "log_transport (JStr ''file'')" "''file''" rules_loaded d0]
    by (simp add: log_transport_def)
  with decorate_rejects_unidentified_or_uncompiled[of "log_transport (JStr ''file'')" rules_loaded]
  obtain d where d: "getDecoration rules_loaded (JStr ''file'') = Some d"
    and w: "\<And>ds m opts s. stream_write t' ds m opts s =
            and_then (d ds m opts) (\<lambda>m'. stream_write (log_transport (JStr ''file'')) ds m' opts s)"
    by (auto simp: log_transport_def)
  from d run_decoration_file [of rules_loaded "JStr ''x''" JUndefined]
  have "d (decorators rules_loaded) (JStr ''x'') JUndefined = Inr (JStr ''xab'')"
    by (simp add: getDecoration_def map_get_def run_decoration_def rules_loaded_fields(1)
        plugins_loaded_fields call_decorate_def suffix_plugin_def default_options_def)
  with w t' d show "\<exists>t' d. decorate rules_loaded (log_transport (JStr ''file'')) = Inr t' \<and>
      getDecoration rules_loaded (JStr ''file'') = Some d \<and>
      stream_write t' (decorators rules_loaded) (JStr ''x'') JUndefined [] = Inr [(JStr ''xab'', JUndefined)]"
    by (simp add: log_transport_def)
qed

text \<open>
  C5. The class \<^verbatim>\<open>decorate\<close> returns differs from the descriptor in \<^verbatim>\<open>write\<close> only:
  its \<^verbatim>\<open>identifier\<close> and every other member are the descriptor's own, and its
  \<^verbatim>\<open>write(message, options)\<close> runs the decoration compiled for the identifier on
  \<^verbatim>\<open>(message, options)\<close> and hands the result, with the very \<^verbatim>\<open>options\<close> of the call,
  to the descriptor's \<^verbatim>\<open>write\<close>; an exception of the decoration leaves the call before
  anything is written.
\<close>

theorem decorate_wraps_only_write:
  assumes "decorate r t = Inr t'"
  shows "\<exists>ident pipe. stream_identifier t = JStr ident \<and> getDecoration r (JStr ident) = Some pipe \<and>
           stream_identifier t' = stream_identifier t \<and>
           transport.more t' = transport.more t \<and>
           (\<forall>ds m opts s. stream_write t' ds m opts s =
              (case pipe ds m opts of
                 Inl e \<Rightarrow> Inl e
               | Inr m' \<Rightarrow> stream_write t ds m' opts s))"
proof -
  from decorate_success[OF assms] obtain ident d where
    i: "stream_identifier t = JStr ident" and d: "decorations r ident = Some d"
    and t': "t' = t\<lparr>stream_write := (\<lambda>ds message options s.
                    case d ds message options of
                      Inl e \<Rightarrow> Inl e
                    | Inr message' \<Rightarrow> stream_write t ds message' options s)\<rparr>"
    by blast
  from d have "getDecoration r (JStr ident) = Some d"
    by (simp add: getDecoration_def map_get_def)
  with i show ?thesis
    unfolding t' by simp
qed

theorem decorate_wraps_only_write_witness:
  "\<exists>t'. decorate rules_loaded (labelled_log_transport (JStr ''file'') ''app.log'') = Inr t' \<and>
      stream_identifier t' = JStr ''file'' \<and> label t' = ''app.log'' \<and>
      stream_write t' (decorators rules_loaded) (JStr ''hello'') (JObj []) []
        = Inr [(JStr ''helloab'', JObj [])]"
proof -
  let ?t = "labelled_log_transport (JStr ''file'') ''app.log''"
  obtain d0 where "decorations rules_loaded ''file'' = Some d0"
    using rules_loaded_compiled by blast
  then obtain t' where t': "decorate rules_loaded ?t = Inr t'"
    using decorate_compiled[of ?t "''file''" rules_loaded d0]
    by (simp add: labelled_log_transport_def)
  from decorate_wraps_only_write[OF t'] obtain pipe where
    p: "getDecoration rules_loaded (JStr ''file'') = Some pipe"
    and same: "stream_identifier t' = stream_identifier ?t" "transport.more t' = transport.more ?t"
    and w: "\<And>ds m opts s. stream_write t' ds m opts s =
              (case pipe ds m opts of
                 Inl e \<Rightarrow> Inl e
               | Inr m' \<Rightarrow> stream_write ?t ds m' opts s)"
    by (auto simp: labelled_log_transport_def)
  from p run_decoration_file [of rules_loaded "JStr ''hello''" "JObj []"]
  have "pipe (decorators rules_loaded) (JStr ''hello'') (JObj []) = Inr (JStr ''helloab'')"
    by (simp add: getDecoration_def map_get_def run_decoration_def rules_loaded_fields(1)
        plugins_loaded_fields call_decorate_def suffix_plugin_def default_options_def)
  with w have "stream_write t' (decorators rules_loaded) (JStr ''hello'') (JObj []) []
        = Inr [(JStr ''helloab'', JObj [])]"
    by (simp add: labelled_log_transport_def)
  moreover from same have "stream_identifier t' = JStr ''file''" "label t' = ''app.log''"
    by (cases t'; simp add: labelled_log_transport_def)+
  ultimately show ?thesis using t' by blast
qed

section \<open>The compiled pipeline\<close>

lemma decorateMessage_Nil: "decorateMessage [] ds m opts = Inr m"
  by (simp add: decorateMessage_def)

lemma decorateMessage_Cons:
  "decorateMessage (f # fs) ds m opts =
     and_then (f ds m (default_options opts)) (\<lambda>m1. decorateMessage fs ds m1 opts)"
  by (simp add: decorateMessage_def and_then_case default_options_def)

lemma decorator_function_success:
  "decorator_function rule = Inr f \<Longrightarrow>
     \<exists>d c. get_prop rule ''decorator'' = Inr d \<and> get_prop rule ''config'' = Inr c \<and>
       f = (\<lambda>ds message options.
              call_decorate (map_get ds d) message (or_empty_object c) options)"
  by (auto simp: decorator_function_def and_then_Inr_iff)

lemma decoratorFunctions_Cons_success:
  "decoratorFunctions (rule # rest) = Inr fs \<Longrightarrow>
     \<exists>f fs'. fs = f # fs' \<and> decorator_function rule = Inr f \<and> decoratorFunctions rest = Inr fs'"
  by (auto simp: and_then_Inr_iff)

lemma check_rules_Cons_ok:
  "check_rules ds ident (rule # rest) = None \<Longrightarrow>
     (\<exists>d. get_prop rule ''decorator'' = Inr d \<and> truthy d \<and> map_has ds d) \<and>
     check_rules ds ident rest = None"
  by (auto split: sum.splits if_splits)

text \<open>The steps run in the order of the rule list: a rule appended to the list runs last.\<close>

lemma reduce_append:
  "reduce f acc (xs @ ys) = and_then (reduce f acc xs) (\<lambda>acc'. reduce f acc' ys)"
  by (induction xs arbitrary: acc) (auto split: sum.splits)

lemma decorateMessage_snoc:
  "decorateMessage (fs @ [f]) ds m opts =
     and_then (decorateMessage fs ds m opts) (\<lambda>m1. f ds m1 (default_options opts))"
  by (simp add: decorateMessage_def reduce_append and_then_case split: sum.splits)

text \<open>
  C10. \<^verbatim>\<open>loadRules\<close> accepts \<^verbatim>\<open>{ [identifier]: [] }\<close>: the call returns normally, the
  empty rule list is stored, and the function compiled for the identifier returns every
  message as it is, whatever the options and the registered plugins. A transport whose
  identifier is that (non-empty) string is then accepted by \<^verbatim>\<open>decorate\<close>, and the
  \<^verbatim>\<open>write\<close> of the returned class does what the transport's own \<^verbatim>\<open>write\<close> does.
\<close>

theorem empty_rules_compile_to_identity:
  "\<exists>r' pipe. loadRules r [(ident, JArr [])] = (None, r') \<and>
     rules r' ident = Some [] \<and>
     decorations r' ident = Some pipe \<and>
     (\<forall>ds m opts. pipe ds m opts = Inr m) \<and>
     (\<forall>t :: ('s, 'x) transport_scheme. stream_identifier t = JStr ident \<and> ident \<noteq> [] \<longrightarrow>
        (\<exists>t'. decorate r' t = Inr t' \<and>
           (\<forall>ds m opts s. stream_write t' ds m opts s = stream_write t ds m opts s)))"
proof -
  define r' where "r' = r\<lparr>rules := (rules r)(ident \<mapsto> []),
                          decorations := (decorations r)(ident \<mapsto> decorateMessage [])\<rparr>"
  have l: "loadRules r [(ident, JArr [])] = (None, r')"
    by (simp add: load_rules_entry_def r'_def)
  have d: "decorations r' ident = Some (decorateMessage [])" and rs: "rules r' ident = Some []"
    by (simp_all add: r'_def)
  have "\<exists>t'. decorate r' t = Inr t' \<and>
           (\<forall>ds m opts s. stream_write t' ds m opts s = stream_write t ds m opts s)"
    if "stream_identifier t = JStr ident \<and> ident \<noteq> []" for t :: "('s, 'x) transport_scheme"
    using that decorate_compiled[of t ident r' "decorateMessage []", OF _ _ d]
    by (simp add: decorateMessage_Nil)
  with l d rs show ?thesis
    by (auto simp: decorateMessage_Nil)
qed

theorem empty_rules_compile_to_identity_witness:
  "\<exists>r' t'. loadRules plugins_loaded [(''raw'', JArr [])] = (None, r') \<and>
     run_decoration r' (getDecoration r' (JStr ''raw'')) (JStr ''x'') JUndefined = Inr (JStr ''x'') \<and>
     decorate r' (log_transport (JStr ''raw'')) = Inr t' \<and>
     stream_write t' (decorators r') (JStr ''x'') JUndefined [] = Inr [(JStr ''x'', JUndefined)]"
proof -
  from empty_rules_compile_to_identity[of plugins_loaded "''raw''"] obtain r' pipe where
    l: "loadRules plugins_loaded [(''raw'', JArr [])] = (None, r')"
    and p: "decorations r' ''raw'' = Some pipe" "\<And>ds m opts. pipe ds m opts = Inr m"
    and t: "\<And>t :: (jsval \<times> jsval) list transport. stream_identifier t = JStr ''raw'' \<Longrightarrow>
        (\<exists>t'. decorate r' t = Inr t' \<and>
           (\<forall>ds m opts s. stream_write t' ds m opts s = stream_write t ds m opts s))"
    by auto
  from t[of "log_transport (JStr ''raw'')"] obtain t' where
    "decorate r' (log_transport (JStr ''raw'')) = Inr t'"
    "\<And>ds m opts s. stream_write t' ds m opts s = stream_write (log_transport (JStr ''raw'')) ds m opts s"
    by (auto simp: log_transport_def)
  with l p show ?thesis
    by (auto simp: run_decoration_def getDecoration_def map_get_def log_transport_def)
qed

section \<open>loadDecorators\<close>

lemma loadDecorators_append:
  "loadDecorators nr r rf root (xs @ ys) =
     (case loadDecorators nr r rf root xs of
        (Some e, r') \<Rightarrow> (Some e, r')
      | (None, r') \<Rightarrow> loadDecorators nr r' rf root ys)"
  by (induction xs arbitrary: r) (auto split: prod.splits option.splits sum.splits)

lemma loadDecorators_frame:
  "loadDecorators nr r rf root cfg = (eo, r') \<Longrightarrow>
     rules r' = rules r \<and> registry_base.more r' = registry_base.more r \<and>
     (\<forall>i. i \<notin> fst ` set cfg \<longrightarrow> decorators r' i = decorators r i) \<and>
     dom (decorators r) \<subseteq> dom (decorators r')"
proof (induction cfg arbitrary: r)
  case Nil
  then show ?case by simp
next
  case (Cons e cfg)
  obtain x where x: "load_decorator nr rf root e = x" by simp
  show ?case
  proof (cases x)
    case (Inl err)
    with x Cons.prems show ?thesis by auto
  next
    case (Inr inst)
    let ?r1 = "r\<lparr>decorators := (decorators r)(fst e \<mapsto> inst)\<rparr>"
    from Inr x Cons.prems have "loadDecorators nr ?r1 rf root cfg = (eo, r')"
      by simp
    from Cons.IH[OF this] have
      f: "rules r' = rules ?r1" "registry_base.more r' = registry_base.more ?r1"
      and o: "\<forall>i. i \<notin> fst ` set cfg \<longrightarrow> decorators r' i = decorators ?r1 i"
      and d: "dom (decorators ?r1) \<subseteq> dom (decorators r')"
      by blast+
    have "dom (decorators r) \<subseteq> dom (decorators ?r1)" by auto
    with d have "dom (decorators r) \<subseteq> dom (decorators r')" by blast
    moreover from o have "\<forall>i. i \<notin> fst ` set (e # cfg) \<longrightarrow> decorators r' i = decorators r i"
      by simp
    ultimately show ?thesis using f by simp
  qed
qed

lemma loadDecorators_decorations:
  fixes r :: registry
  shows "loadDecorators nr r rf root cfg = (eo, r') \<Longrightarrow> decorations r' = decorations r"
  using loadDecorators_frame[of nr r rf root cfg eo r']
  by (cases r, cases r') auto

lemma load_decorator_success:
  assumes "load_decorator nr rf root (nm, settings) = Inr inst"
  shows "\<exists>req c fresh.
           hasOwnProperty settings ''require'' = Inr True \<and>
           get_prop settings ''require'' = Inr (JStr req) \<and>
           get_prop settings ''config'' = Inr c \<and>
           resolve nr rf root req = Inr (Inr fresh) \<and>
           has_decorate fresh \<and> has_configure fresh \<and>
           configure_impl fresh (Some nm) (configured fresh) (or_empty_object c) = None \<and>
           inst = fresh\<lparr>name := Some nm, configured := configured fresh @ [or_empty_object c]\<rparr>"
proof -
  from assms obtain has where h: "hasOwnProperty settings ''require'' = Inr has"
    and 1: "(if \<not> has then Inl (Error_NoRequire nm)
          else and_then (get_prop settings ''require'') (\<lambda>rq.
            case rq of
              JStr req \<Rightarrow>
                and_then (get_prop settings ''config'') (\<lambda>cfg.
                  and_then (resolve nr rf root req) (\<lambda>decorator.
                    and_then decorator (\<lambda>instance.
                      if \<not> has_decorate instance then Inl (Error_NoDecorate nm)
                      else if \<not> has_configure instance then Inl (Error_NoConfigure nm)
                      else configure (instance\<lparr>name := Some nm\<rparr>) (or_empty_object cfg))))
            | _ \<Rightarrow> Inl (TypeError_InvalidRequire nm))) = Inr inst"
    unfolding load_decorator_def prod.case Let_def and_then_Inr_iff by blast
  from 1 have has: has by (auto split: if_splits)
  with 1 obtain rq where rq: "get_prop settings ''require'' = Inr rq"
    and 2: "(case rq of
              JStr req \<Rightarrow>
                and_then (get_prop settings ''config'') (\<lambda>cfg.
                  and_then (resolve nr rf root req) (\<lambda>decorator.
                    and_then decorator (\<lambda>instance.
                      if \<not> has_decorate instance then Inl (Error_NoDecorate nm)
                      else if \<not> has_configure instance then Inl (Error_NoConfigure nm)
                      else configure (instance\<lparr>name := Some nm\<rparr>) (or_empty_object cfg))))
            | _ \<Rightarrow> Inl (TypeError_InvalidRequire nm)) = Inr inst"
    by (auto simp: and_then_Inr_iff)
  from 2 obtain req where req: "rq = JStr req"
    by (cases rq) simp_all
  with 2 obtain c decorator fresh where c: "get_prop settings ''config'' = Inr c"
    and res: "resolve nr rf root req = Inr decorator" and fresh: "decorator = Inr fresh"
    and 3: "(if \<not> has_decorate fresh then Inl (Error_NoDecorate nm)
                      else if \<not> has_configure fresh then Inl (Error_NoConfigure nm)
                      else configure (fresh\<lparr>name := Some nm\<rparr>) (or_empty_object c)) = Inr inst"
    by (auto simp: and_then_Inr_iff Let_def)
  from 3 have caps: "has_decorate fresh" "has_configure fresh"
    and 4: "configure (fresh\<lparr>name := Some nm\<rparr>) (or_empty_object c) = Inr inst"
    by (auto split: if_splits)
  from 4 have "configure_impl fresh (Some nm) (configured fresh) (or_empty_object c) = None"
    and "inst = fresh\<lparr>name := Some nm, configured := configured fresh @ [or_empty_object c]\<rparr>"
    by (auto simp: configure_def split: option.splits)
  with h has rq req c res fresh caps show ?thesis by simp
qed

lemma load_decorator_well_formed:
  assumes "hasOwnProperty settings ''require'' = Inr True"
    and "get_prop settings ''require'' = Inr (JStr req)"
    and "get_prop settings ''config'' = Inr c"
    and "resolve nr rf root req = Inr (Inr fresh)"
    and "has_decorate fresh" and "has_configure fresh"
    and "configure_impl fresh (Some nm) (configured fresh) (or_empty_object c) = None"
  shows "load_decorator nr rf root (nm, settings) =
           Inr (fresh\<lparr>name := Some nm, configured := configured fresh @ [or_empty_object c]\<rparr>)"
  using assms by (simp add: load_decorator_def configure_def)

lemma loadDecorators_success_entry:
  assumes ok: "loadDecorators nr r rf root cfg = (None, r')"
    and dist: "distinct (map fst cfg)"
    and mem: "(nm, settings) \<in> set cfg"
  shows "\<exists>inst. load_decorator nr rf root (nm, settings) = Inr inst \<and> decorators r' nm = Some inst"
proof -
  from mem obtain pre post where cfg: "cfg = pre @ (nm, settings) # post"
    by (auto dest: split_list)
  from dist cfg have notin: "nm \<notin> fst ` set post" by auto
  from ok cfg obtain r1 where p1: "loadDecorators nr r rf root pre = (None, r1)"
    and p2: "loadDecorators nr r1 rf root ((nm, settings) # post) = (None, r')"
    by (auto simp: loadDecorators_append split: prod.splits option.splits)
  from p2 obtain inst where i: "load_decorator nr rf root (nm, settings) = Inr inst"
    and p3: "loadDecorators nr (r1\<lparr>decorators := (decorators r1)(nm \<mapsto> inst)\<rparr>) rf root post = (None, r')"
    by (auto split: sum.splits)
  from loadDecorators_frame[OF p3] notin have "decorators r' nm = Some inst" by simp
  with i show ?thesis by blast
qed

lemma loadDecorators_success_dom:
  "loadDecorators nr r rf root cfg = (None, r') \<Longrightarrow>
     dom (decorators r') = dom (decorators r) \<union> fst ` set cfg"
proof (induction cfg arbitrary: r)
  case Nil
  then show ?case by simp
next
  case (Cons e cfg)
  from Cons.prems obtain inst where
    "loadDecorators nr (r\<lparr>decorators := (decorators r)(fst e \<mapsto> inst)\<rparr>) rf root cfg = (None, r')"
    by (auto split: sum.splits)
  from Cons.IH[OF this] show ?case by auto
qed

lemma loadDecorators_total:
  "\<forall>e \<in> set cfg. \<exists>inst. load_decorator nr rf root e = Inr inst \<Longrightarrow>
     \<exists>r'. loadDecorators nr r rf root cfg = (None, r')"
  by (induction cfg arbitrary: r) auto

text \<open>
  C6. A plugin spec is well formed when each entry is an object with an own
  \<^verbatim>\<open>require\<close> string that resolves to a class whose instances have \<^verbatim>\<open>decorate\<close> and
  \<^verbatim>\<open>configure\<close>, and whose \<^verbatim>\<open>configure\<close> accepts the entry's configuration. For such
  a spec (the entries of one object, so with distinct names) \<^verbatim>\<open>loadDecorators\<close> returns
  normally, whatever the registry held before; afterwards the registered names are the
  earlier ones and the entries' names, and \<^verbatim>\<open>getDecorator(name)\<close> is, for each entry,
  the instance built from that entry's class, tagged with the name, on which
  \<^verbatim>\<open>configure\<close> has been called once more than on the fresh instance, with
  \<^verbatim>\<open>settings.config || {}\<close> (the supplied object, or \<^verbatim>\<open>{}\<close> when there is none:
  \<open>or_empty_object_cases\<close>). Since nothing is assumed of the registry before the call,
  a plugin registered earlier under one of these names is replaced: only the instance of
  the later load remains.
\<close>

theorem loadDecorators_registers_each_entry:
  assumes wf: "\<forall>(nm, settings) \<in> set cfg. \<exists>req c fresh.
                 hasOwnProperty settings ''require'' = Inr True \<and>
                 get_prop settings ''require'' = Inr (JStr req) \<and>
                 get_prop settings ''config'' = Inr c \<and>
                 resolve nr rf root req = Inr (Inr fresh) \<and>
                 has_decorate fresh \<and> has_configure fresh \<and>
                 configure_impl fresh (Some nm) (configured fresh) (or_empty_object c) = None"
    and dist: "distinct (map fst cfg)"
  shows "\<exists>r'. loadDecorators nr r rf root cfg = (None, r') \<and>
           dom (decorators r') = dom (decorators r) \<union> fst ` set cfg \<and>
           (\<forall>(nm, settings) \<in> set cfg. \<exists>req c fresh.
              get_prop settings ''require'' = Inr (JStr req) \<and>
              get_prop settings ''config'' = Inr c \<and>
              resolve nr rf root req = Inr (Inr fresh) \<and>
              getDecorator r' (JStr nm) =
                Some (fresh\<lparr>name := Some nm,
                            configured := configured fresh @ [or_empty_object c]\<rparr>))"
proof -
  have "\<forall>e \<in> set cfg. \<exists>inst. load_decorator nr rf root e = Inr inst"
  proof
    fix e assume "e \<in> set cfg"
    with wf obtain req c fresh where
      "hasOwnProperty (snd e) ''require'' = Inr True"
      "get_prop (snd e) ''require'' = Inr (JStr req)"
      "get_prop (snd e) ''config'' = Inr c"
      "resolve nr rf root req = Inr (Inr fresh)"
      "has_decorate fresh" "has_configure fresh"
      "configure_impl fresh (Some (fst e)) (configured fresh) (or_empty_object c) = None"
      by (cases e) fastforce
    from load_decorator_well_formed[OF this]
    show "\<exists>inst. load_decorator nr rf root e = Inr inst" by simp
  qed
  from loadDecorators_total[OF this] obtain r' where
    ok: "loadDecorators nr r rf root cfg = (None, r')" by blast
  have "\<exists>req c fresh.
              get_prop settings ''require'' = Inr (JStr req) \<and>
              get_prop settings ''config'' = Inr c \<and>
              resolve nr rf root req = Inr (Inr fresh) \<and>
              getDecorator r' (JStr nm) =
                Some (fresh\<lparr>name := Some nm,
                            configured := configured fresh @ [or_empty_object c]\<rparr>)"
    if "(nm, settings) \<in> set cfg" for nm settings
  proof -
    from loadDecorators_success_entry[OF ok dist that] obtain inst where
      i: "load_decorator nr rf root (nm, settings) = Inr inst" and g: "decorators r' nm = Some inst"
      by blast
    from load_decorator_success[OF i] g show ?thesis
      by (auto simp: getDecorator_def map_get_def)
  qed
  with ok loadDecorators_success_dom[OF ok] show ?thesis by blast
qed

theorem loadDecorators_registers_each_entry_witness:
  "\<exists>r'. loadDecorators example_require rules_loaded example_requireFn ''/srv''
            [plugin_spec ''a'' ''pkg.Bang'', (''c'', JObj [(''require'', JStr ''suffix-b''), (''config'', JObj [(''k'', JNum 2)])])]
          = (None, r') \<and>
     getDecorator rules_loaded (JStr ''a'') = Some ((suffix_plugin ''a'')\<lparr>name := Some ''a'', configured := [JObj []]\<rparr>) \<and>
     getDecorator r' (JStr ''a'') = Some ((suffix_plugin ''!'')\<lparr>name := Some ''a'', configured := [JObj []]\<rparr>) \<and>
     getDecorator r' (JStr ''c'') = Some ((suffix_plugin ''b'')\<lparr>name := Some ''c'', configured := [JObj [(''k'', JNum 2)]]\<rparr>) \<and>
     dom (decorators r') = {''a'', ''b'', ''opts'', ''c''}"
proof -
  let ?cfg = "[plugin_spec ''a'' ''pkg.Bang'', (''c'', JObj [(''require'', JStr ''suffix-b''), (''config'', JObj [(''k'', JNum 2)])])]"
  have wf: "\<forall>(nm, settings) \<in> set ?cfg. \<exists>req c fresh.
                 hasOwnProperty settings ''require'' = Inr True \<and>
                 get_prop settings ''require'' = Inr (JStr req) \<and>
                 get_prop settings ''config'' = Inr c \<and>
                 resolve example_require example_requireFn ''/srv'' req = Inr (Inr fresh) \<and>
                 has_decorate fresh \<and> has_configure fresh \<and>
                 configure_impl fresh (Some nm) (configured fresh) (or_empty_object c) = None"
    by (simp add: plugin_spec_def js_defs resolve_def example_require_def example_requireFn_def
        suffix_plugin_def)
  have dist: "distinct (map fst ?cfg)" by (simp add: plugin_spec_def)
  from loadDecorators_registers_each_entry[OF wf dist, of rules_loaded] obtain r' where
    ok: "loadDecorators example_require rules_loaded example_requireFn ''/srv'' ?cfg = (None, r')"
    and dm: "dom (decorators r') = dom (decorators rules_loaded) \<union> fst ` set ?cfg"
    and each: "\<forall>(nm, settings) \<in> set ?cfg. \<exists>req c fresh.
              get_prop settings ''require'' = Inr (JStr req) \<and>
              get_prop settings ''config'' = Inr c \<and>
              resolve example_require example_requireFn ''/srv'' req = Inr (Inr fresh) \<and>
              getDecorator r' (JStr nm) =
                Some (fresh\<lparr>name := Some nm,
                            configured := configured fresh @ [or_empty_object c]\<rparr>)"
    by blast
  from each have "getDecorator r' (JStr ''a'') = Some ((suffix_plugin ''!'')\<lparr>name := Some ''a'', configured := [JObj []]\<rparr>)"
    "getDecorator r' (JStr ''c'') = Some ((suffix_plugin ''b'')\<lparr>name := Some ''c'', configured := [JObj [(''k'', JNum 2)]]\<rparr>)"
    by (simp_all add: plugin_spec_def js_defs resolve_def example_require_def example_requireFn_def
        suffix_plugin_def)
  moreover from dm have "dom (decorators r') = {''a'', ''b'', ''opts'', ''c''}"
    by (auto simp: rules_loaded_fields(1) plugins_loaded_fields plugin_spec_def)
  moreover have "getDecorator rules_loaded (JStr ''a'') = Some ((suffix_plugin ''a'')\<lparr>name := Some ''a'', configured := [JObj []]\<rparr>)"
    by (simp add: getDecorator_def map_get_def rules_loaded_fields(1) plugins_loaded_fields)
  ultimately show ?thesis using ok by blast
qed

lemma loadDecorators_failing_entry:
  assumes "loadDecorators nr r rf root pre = (None, r1)"
    and "load_decorator nr rf root entry = Inl e"
  shows "loadDecorators nr r rf root (pre @ entry # post) = (Some e, r1)"
  using assms by (simp add: loadDecorators_append)

lemma loadDecorators_success_configured:
  assumes ok: "loadDecorators nr r rf root cfg = (None, r')" and mem: "nm \<in> fst ` set cfg"
  shows "\<exists>inst. decorators r' nm = Some inst \<and> name inst = Some nm \<and> configured inst \<noteq> []"
  using ok mem
proof (induction cfg arbitrary: r r' rule: rev_induct)
  case Nil
  then show ?case by simp
next
  case (snoc x xs)
  from snoc.prems(1) obtain r1 where p1: "loadDecorators nr r rf root xs = (None, r1)"
    and p2: "loadDecorators nr r1 rf root [x] = (None, r')"
    by (auto simp: loadDecorators_append split: prod.splits option.splits)
  from p2 obtain inst where i: "load_decorator nr rf root x = Inr inst"
    and r': "r' = r1\<lparr>decorators := (decorators r1)(fst x \<mapsto> inst)\<rparr>"
    by (auto split: sum.splits)
  show ?case
  proof (cases "nm = fst x")
    case True
    from i have "load_decorator nr rf root (fst x, snd x) = Inr inst" by simp
    from load_decorator_success[OF this] True r' show ?thesis by auto
  next
    case False
    with snoc.prems(2) have "nm \<in> fst ` set xs" by auto
    from snoc.IH[OF p1 this] False r' show ?thesis by simp
  qed
qed

text \<open>
  C7. When the entries before an entry have loaded and that entry has no own
  \<^verbatim>\<open>require\<close>, or a \<^verbatim>\<open>require\<close> that is not a string, or resolves to a class whose
  instance lacks \<^verbatim>\<open>decorate\<close> or \<^verbatim>\<open>configure\<close>, the whole \<^verbatim>\<open>loadDecorators\<close> call
  ends with the exception of that check, which carries the entry's name; the entries after
  it are not looked at, and the registry is left as the earlier entries made it: each of
  their names is registered with an instance tagged with the name and configured.
\<close>

theorem loadDecorators_failure_keeps_earlier_entries:
  assumes "loadDecorators nr r rf root pre = (None, r1)"
  shows "(hasOwnProperty settings ''require'' = Inr False \<longrightarrow>
            loadDecorators nr r rf root (pre @ (nm, settings) # post) = (Some (Error_NoRequire nm), r1)) \<and>
         (hasOwnProperty settings ''require'' = Inr True \<and>
          (\<exists>v. get_prop settings ''require'' = Inr v \<and> (\<forall>req. v \<noteq> JStr req)) \<longrightarrow>
            loadDecorators nr r rf root (pre @ (nm, settings) # post)
              = (Some (TypeError_InvalidRequire nm), r1)) \<and>
         (\<forall>req fresh.
            hasOwnProperty settings ''require'' = Inr True \<and>
            get_prop settings ''require'' = Inr (JStr req) \<and>
            resolve nr rf root req = Inr (Inr fresh) \<and> \<not> has_decorate fresh \<longrightarrow>
              loadDecorators nr r rf root (pre @ (nm, settings) # post)
                = (Some (Error_NoDecorate nm), r1)) \<and>
         (\<forall>req fresh.
            hasOwnProperty settings ''require'' = Inr True \<and>
            get_prop settings ''require'' = Inr (JStr req) \<and>
            resolve nr rf root req = Inr (Inr fresh) \<and> has_decorate fresh \<and> \<not> has_configure fresh \<longrightarrow>
              loadDecorators nr r rf root (pre @ (nm, settings) # post)
                = (Some (Error_NoConfigure nm), r1)) \<and>
         (\<forall>n \<in> fst ` set pre. \<exists>inst.
            getDecorator r1 (JStr n) = Some inst \<and> name inst = Some n \<and> configured inst \<noteq> [])"
proof (intro conjI allI impI ballI)
  show "loadDecorators nr r rf root (pre @ (nm, settings) # post) = (Some (Error_NoRequire nm), r1)"
    if "hasOwnProperty settings ''require'' = Inr False"
    using that by (intro loadDecorators_failing_entry[OF assms]) (simp add: load_decorator_def)
  show "loadDecorators nr r rf root (pre @ (nm, settings) # post) = (Some (TypeError_InvalidRequire nm), r1)"
    if "hasOwnProperty settings ''require'' = Inr True \<and>
          (\<exists>v. get_prop settings ''require'' = Inr v \<and> (\<forall>req. v \<noteq> JStr req))"
    using that
    by (intro loadDecorators_failing_entry[OF assms])
      (auto simp: load_decorator_def split: jsval.splits)
  show "loadDecorators nr r rf root (pre @ (nm, settings) # post) = (Some (Error_NoDecorate nm), r1)"
    if "hasOwnProperty settings ''require'' = Inr True \<and>
            get_prop settings ''require'' = Inr (JStr req) \<and>
            resolve nr rf root req = Inr (Inr fresh) \<and> \<not> has_decorate fresh" for req fresh
  proof -
    from that obtain c where "get_prop settings ''config'' = Inr c"
      by (auto simp: get_prop_def split: jsval.splits)
    with that show ?thesis
      by (intro loadDecorators_failing_entry[OF assms]) (simp add: load_decorator_def)
  qed
  show "loadDecorators nr r rf root (pre @ (nm, settings) # post) = (Some (Error_NoConfigure nm), r1)"
    if "hasOwnProperty settings ''require'' = Inr True \<and>
            get_prop settings ''require'' = Inr (JStr req) \<and>
            resolve nr rf root req = Inr (Inr fresh) \<and> has_decorate fresh \<and> \<not> has_configure fresh"
    for req fresh
  proof -
    from that obtain c where "get_prop settings ''config'' = Inr c"
      by (auto simp: get_prop_def split: jsval.splits)
    with that show ?thesis
      by (intro loadDecorators_failing_entry[OF assms]) (simp add: load_decorator_def)
  qed
  show "\<exists>inst. getDecorator r1 (JStr n) = Some inst \<and> name inst = Some n \<and> configured inst \<noteq> []"
    if "n \<in> fst ` set pre" for n
    using loadDecorators_success_configured[OF assms that]
    by (simp add: getDecorator_def map_get_def)
qed

theorem loadDecorators_failure_keeps_earlier_entries_witness:
  "loadDecorators example_require new_registry example_requireFn ''/srv''
     (example_plugins @ (''x'', JObj []) # [plugin_spec ''z'' ''suffix-a''])
     = (Some (Error_NoRequire ''x''), plugins_loaded) \<and>
   loadDecorators example_require new_registry example_requireFn ''/srv''
     (example_plugins @ (''x'', JObj [(''require'', JNum 5)]) # [plugin_spec ''z'' ''suffix-a''])
     = (Some (TypeError_InvalidRequire ''x''), plugins_loaded) \<and>
   loadDecorators example_require new_registry example_requireFn ''/srv''
     (example_plugins @ plugin_spec ''x'' ''no-decorate'' # [plugin_spec ''z'' ''suffix-a''])
     = (Some (Error_NoDecorate ''x''), plugins_loaded) \<and>
   loadDecorators example_require new_registry example_requireFn ''/srv''
     (example_plugins @ plugin_spec ''x'' ''no-configure'' # [plugin_spec ''z'' ''suffix-a''])
     = (Some (Error_NoConfigure ''x''), plugins_loaded) \<and>
   getDecorator plugins_loaded (JStr ''b'')
     = Some ((suffix_plugin ''b'')\<lparr>name := Some ''b'', configured := [JObj []]\<rparr>) \<and>
   getDecorator plugins_loaded (JStr ''x'') = None \<and>
   getDecorator plugins_loaded (JStr ''z'') = None"
proof -
  note t = loadDecorators_failure_keeps_earlier_entries[OF plugins_loaded_ok,
      where post = "[plugin_spec ''z'' ''suffix-a'']" and nm = "''x''"]
  have 1: "hasOwnProperty (JObj []) ''require'' = Inr False"
    by (simp add: hasOwnProperty_def)
  have 2: "hasOwnProperty (JObj [(''require'', JNum 5)]) ''require'' = Inr True \<and>
          (\<exists>v. get_prop (JObj [(''require'', JNum 5)]) ''require'' = Inr v \<and> (\<forall>req. v \<noteq> JStr req))"
    by (simp add: hasOwnProperty_def get_prop_def)
  have 3: "hasOwnProperty (snd (plugin_spec ''x'' ''no-decorate'')) ''require'' = Inr True \<and>
            get_prop (snd (plugin_spec ''x'' ''no-decorate'')) ''require'' = Inr (JStr ''no-decorate'') \<and>
            resolve example_require example_requireFn ''/srv'' ''no-decorate'' = Inr (Inr no_decorate_plugin) \<and>
            \<not> has_decorate no_decorate_plugin"
    by (simp add: plugin_spec_def hasOwnProperty_def get_prop_def resolve_def example_require_def
        no_decorate_plugin_def)
  have 4: "hasOwnProperty (snd (plugin_spec ''x'' ''no-configure'')) ''require'' = Inr True \<and>
            get_prop (snd (plugin_spec ''x'' ''no-configure'')) ''require'' = Inr (JStr ''no-configure'') \<and>
            resolve example_require example_requireFn ''/srv'' ''no-configure'' = Inr (Inr no_configure_plugin) \<and>
            has_decorate no_configure_plugin \<and> \<not> has_configure no_configure_plugin"
    by (simp add: plugin_spec_def hasOwnProperty_def get_prop_def resolve_def example_require_def
        no_configure_plugin_def suffix_plugin_def)
  from t[of "JObj []"] 1
  have a: "loadDecorators example_require new_registry example_requireFn ''/srv''
     (example_plugins @ (''x'', JObj []) # [plugin_spec ''z'' ''suffix-a''])
     = (Some (Error_NoRequire ''x''), plugins_loaded)"
    by blast
  from t[of "JObj [(''require'', JNum 5)]"] 2
  have b: "loadDecorators example_require new_registry example_requireFn ''/srv''
     (example_plugins @ (''x'', JObj [(''require'', JNum 5)]) # [plugin_spec ''z'' ''suffix-a''])
     = (Some (TypeError_InvalidRequire ''x''), plugins_loaded)"
    by blast
  from t[of "snd (plugin_spec ''x'' ''no-decorate'')"] 3
  have "loadDecorators example_require new_registry example_requireFn ''/srv''
     (example_plugins @ (''x'', snd (plugin_spec ''x'' ''no-decorate'')) # [plugin_spec ''z'' ''suffix-a''])
     = (Some (Error_NoDecorate ''x''), plugins_loaded)"
    by blast
  then have c: "loadDecorators example_require new_registry example_requireFn ''/srv''
     (example_plugins @ plugin_spec ''x'' ''no-decorate'' # [plugin_spec ''z'' ''suffix-a''])
     = (Some (Error_NoDecorate ''x''), plugins_loaded)"
    by (simp add: plugin_spec_def)
  from t[of "snd (plugin_spec ''x'' ''no-configure'')"] 4
  have "loadDecorators example_require new_registry example_requireFn ''/srv''
     (example_plugins @ (''x'', snd (plugin_spec ''x'' ''no-configure'')) # [plugin_spec ''z'' ''suffix-a''])
     = (Some (Error_NoConfigure ''x''), plugins_loaded)"
    by blast
  then have d: "loadDecorators example_require new_registry example_requireFn ''/srv''
     (example_plugins @ plugin_spec ''x'' ''no-configure'' # [plugin_spec ''z'' ''suffix-a''])
     = (Some (Error_NoConfigure ''x''), plugins_loaded)"
    by (simp add: plugin_spec_def)
  have e: "getDecorator plugins_loaded (JStr ''b'')
     = Some ((suffix_plugin ''b'')\<lparr>name := Some ''b'', configured := [JObj []]\<rparr>)"
    "getDecorator plugins_loaded (JStr ''x'') = None"
    "getDecorator plugins_loaded (JStr ''z'') = None"
    by (simp_all add: getDecorator_def map_get_def plugins_loaded_fields)
  from a b c d e show ?thesis by blast
qed

section \<open>loadRules: validation\<close>

lemma check_rules_append:
  "check_rules ds ident (xs @ ys) =
     (case check_rules ds ident xs of Some e \<Rightarrow> Some e | None \<Rightarrow> check_rules ds ident ys)"
  by (induction xs) (auto split: sum.splits)

lemma check_rules_offending:
  assumes "bad \<in> set rs" and "get_prop bad ''decorator'' = Inr d"
    and "\<not> truthy d \<or> \<not> map_has ds d"
  shows "check_rules ds ident rs \<noteq> None"
  using assms by (induction rs) (auto split: sum.splits)

lemma check_rules_error:
  "check_rules ds ident rs = Some e \<Longrightarrow>
     e = Error_NoDecorator ident \<or>
     (\<exists>d. e = Error_NonExistentDecorator ident d \<and> truthy d \<and> \<not> map_has ds d) \<or>
     (e = TypeError_Nullish \<and> (JNull \<in> set rs \<or> JUndefined \<in> set rs))"
proof (induction rs)
  case Nil
  then show ?case by simp
next
  case (Cons rule rs)
  show ?case
  proof (cases "get_prop rule ''decorator''")
    case (Inl err)
    then have "err = TypeError_Nullish" "rule = JNull \<or> rule = JUndefined"
      by (auto simp: get_prop_def split: jsval.splits)
    with Inl Cons.prems show ?thesis by auto
  next
    case (Inr d)
    with Cons show ?thesis by (auto split: if_splits)
  qed
qed

lemma loadRules_failing_entry:
  assumes "loadRules r pre = (None, r1)" and "load_rules_entry r1 entry = (Some e, r2)"
  shows "loadRules r (pre @ entry # post) = (Some e, r1)"
  using assms load_rules_entry_failure[OF assms(2)] by (simp add: loadRules_append)

lemma load_rules_entry_check_fails:
  "check_rules (decorators r) ident rs = Some e \<Longrightarrow>
     load_rules_entry r (ident, JArr rs) = (Some e, r)"
  by (simp add: load_rules_entry_def)

text \<open>
  C4. Let the entries before \<open>(ident, rv)\<close> have loaded, leaving the registry \<open>r1\<close>.
  If \<open>rv\<close> is not an array, \<^verbatim>\<open>loadRules\<close> throws the error that names the identifier.
  If it is an array whose first offending rule has a missing or empty (falsy)
  \<^verbatim>\<open>decorator\<close>, it throws the error that names the identifier; if that rule's
  \<^verbatim>\<open>decorator\<close> is not a registered plugin name, it throws the error that names the
  identifier and that decorator. An array with such a rule anywhere is always rejected, with
  one of these errors (or with the runtime's TypeError when a rule before it is
  \<^verbatim>\<open>null\<close> or \<^verbatim>\<open>undefined\<close>). In every case the call ends at this entry with the
  registry \<open>r1\<close>, in which the identifier's rule list and decoration are what they were
  before the call.
\<close>

theorem loadRules_rejects_invalid_rules:
  assumes "loadRules r pre = (None, r1)" and "ident \<notin> fst ` set pre"
  shows "((\<forall>rs. rv \<noteq> JArr rs) \<longrightarrow>
            loadRules r (pre @ (ident, rv) # post) = (Some (Error_RulesNotArray ident), r1)) \<and>
         (\<forall>good bad rest d.
            rv = JArr (good @ bad # rest) \<and> check_rules (decorators r) ident good = None \<and>
            get_prop bad ''decorator'' = Inr d \<and> \<not> truthy d \<longrightarrow>
              loadRules r (pre @ (ident, rv) # post) = (Some (Error_NoDecorator ident), r1)) \<and>
         (\<forall>good bad rest d.
            rv = JArr (good @ bad # rest) \<and> check_rules (decorators r) ident good = None \<and>
            get_prop bad ''decorator'' = Inr d \<and> truthy d \<and> \<not> map_has (decorators r) d \<longrightarrow>
              loadRules r (pre @ (ident, rv) # post)
                = (Some (Error_NonExistentDecorator ident d), r1)) \<and>
         (\<forall>rs bad d.
            rv = JArr rs \<and> bad \<in> set rs \<and> get_prop bad ''decorator'' = Inr d \<and>
            (\<not> truthy d \<or> \<not> map_has (decorators r) d) \<longrightarrow>
              (\<exists>e. loadRules r (pre @ (ident, rv) # post) = (Some e, r1) \<and>
                 (e = Error_NoDecorator ident \<or>
                  (\<exists>d'. e = Error_NonExistentDecorator ident d' \<and> \<not> map_has (decorators r) d') \<or>
                  (e = TypeError_Nullish \<and> (JNull \<in> set rs \<or> JUndefined \<in> set rs))))) \<and>
         rules r1 ident = rules r ident \<and> decorations r1 ident = decorations r ident"
proof -
  note ds = loadRules_decorators[OF assms(1)]
  have na: "loadRules r (pre @ (ident, rv) # post) = (Some (Error_RulesNotArray ident), r1)"
    if "\<forall>rs. rv \<noteq> JArr rs"
  proof -
    from that have "load_rules_entry r1 (ident, rv) = (Some (Error_RulesNotArray ident), r1)"
      by (cases rv) (simp_all add: load_rules_entry_def)
    from loadRules_failing_entry[OF assms(1) this] show ?thesis .
  qed
  have chk: "loadRules r (pre @ (ident, JArr rs) # post) = (Some e, r1)"
    if "check_rules (decorators r) ident rs = Some e" for rs e
    using loadRules_failing_entry[OF assms(1) load_rules_entry_check_fails] that ds by simp
  have nd: "loadRules r (pre @ (ident, rv) # post) = (Some (Error_NoDecorator ident), r1)"
    if "rv = JArr (good @ bad # rest) \<and> check_rules (decorators r) ident good = None \<and>
            get_prop bad ''decorator'' = Inr d \<and> \<not> truthy d" for good bad rest d
    using that chk[of "good @ bad # rest" "Error_NoDecorator ident"]
    by (simp add: check_rules_append)
  have ne: "loadRules r (pre @ (ident, rv) # post) = (Some (Error_NonExistentDecorator ident d), r1)"
    if "rv = JArr (good @ bad # rest) \<and> check_rules (decorators r) ident good = None \<and>
            get_prop bad ''decorator'' = Inr d \<and> truthy d \<and> \<not> map_has (decorators r) d"
    for good bad rest d
    using that chk[of "good @ bad # rest" "Error_NonExistentDecorator ident d"]
    by (simp add: check_rules_append)
  have any: "\<exists>e. loadRules r (pre @ (ident, rv) # post) = (Some e, r1) \<and>
                 (e = Error_NoDecorator ident \<or>
                  (\<exists>d'. e = Error_NonExistentDecorator ident d' \<and> \<not> map_has (decorators r) d') \<or>
                  (e = TypeError_Nullish \<and> (JNull \<in> set rs \<or> JUndefined \<in> set rs)))"
    if "rv = JArr rs \<and> bad \<in> set rs \<and> get_prop bad ''decorator'' = Inr d \<and>
            (\<not> truthy d \<or> \<not> map_has (decorators r) d)" for rs bad d
  proof -
    from that check_rules_offending[of bad rs d "decorators r" ident]
    obtain e where e: "check_rules (decorators r) ident rs = Some e" by auto
    from check_rules_error[OF e] chk[OF e] that show ?thesis by auto
  qed
  from loadRules_other[OF assms] na nd ne any show ?thesis by blast
qed

theorem loadRules_rejects_invalid_rules_witness:
  "\<exists>r1. loadRules plugins_loaded [(''file'', JArr [rule_for ''a'', rule_for ''b''])] = (None, r1) \<and>
     loadRules plugins_loaded
       ([(''file'', JArr [rule_for ''a'', rule_for ''b''])] @
        (''console'', JObj [(''0'', rule_for ''a'')]) # [(''raw'', JArr [])])
       = (Some (Error_RulesNotArray ''console''), r1) \<and>
     loadRules plugins_loaded
       ([(''file'', JArr [rule_for ''a'', rule_for ''b''])] @
        (''console'', JArr [rule_for ''a'', JObj [(''decorator'', JStr [])], rule_for ''b'']) # [(''raw'', JArr [])])
       = (Some (Error_NoDecorator ''console''), r1) \<and>
     loadRules plugins_loaded
       ([(''file'', JArr [rule_for ''a'', rule_for ''b''])] @
        (''console'', JArr [rule_for ''a'', rule_for ''missing'', rule_for ''b'']) # [(''raw'', JArr [])])
       = (Some (Error_NonExistentDecorator ''console'' (JStr ''missing'')), r1) \<and>
     rules r1 ''console'' = None \<and> decorations r1 ''console'' = None \<and>
     rules r1 ''raw'' = None \<and> decorations r1 ''raw'' = None \<and>
     getRules r1 (JStr ''file'') = JArr [rule_for ''a'', rule_for ''b'']"
proof -
  let ?pre = "[(''file'', JArr [rule_for ''a'', rule_for ''b''])]"
  have "fst (loadRules plugins_loaded ?pre) = None"
    by (simp add: plugins_loaded_fields js_defs load_defs rule_for_def split: prod.splits)
  then obtain r1 where pre: "loadRules plugins_loaded ?pre = (None, r1)"
    by (cases "loadRules plugins_loaded ?pre") auto
  have notin: "''console'' \<notin> fst ` set ?pre" by simp
  note t = loadRules_rejects_invalid_rules[OF pre notin, where post = "[(''raw'', JArr [])]"]
  have good: "check_rules (decorators plugins_loaded) ''console'' [rule_for ''a''] = None"
    by (simp add: plugins_loaded_fields js_defs rule_for_def)
  have 1: "\<forall>rs. JObj [(''0'', rule_for ''a'')] \<noteq> JArr rs" by simp
  have 2: "JArr [rule_for ''a'', JObj [(''decorator'', JStr [])], rule_for ''b'']
             = JArr ([rule_for ''a''] @ JObj [(''decorator'', JStr [])] # [rule_for ''b'']) \<and>
           check_rules (decorators plugins_loaded) ''console'' [rule_for ''a''] = None \<and>
           get_prop (JObj [(''decorator'', JStr [])]) ''decorator'' = Inr (JStr []) \<and>
           \<not> truthy (JStr [])"
    using good by (simp add: get_prop_def)
  have 3: "JArr [rule_for ''a'', rule_for ''missing'', rule_for ''b'']
             = JArr ([rule_for ''a''] @ rule_for ''missing'' # [rule_for ''b'']) \<and>
           check_rules (decorators plugins_loaded) ''console'' [rule_for ''a''] = None \<and>
           get_prop (rule_for ''missing'') ''decorator'' = Inr (JStr ''missing'') \<and>
           truthy (JStr ''missing'') \<and> \<not> map_has (decorators plugins_loaded) (JStr ''missing'')"
    using good by (simp add: get_prop_def rule_for_def map_has_def map_get_def plugins_loaded_fields)
  have a: "loadRules plugins_loaded
       (?pre @ (''console'', JObj [(''0'', rule_for ''a'')]) # [(''raw'', JArr [])])
       = (Some (Error_RulesNotArray ''console''), r1)"
    by (rule t[THEN conjunct1, THEN mp, OF 1])
  have b: "loadRules plugins_loaded
       (?pre @ (''console'', JArr [rule_for ''a'', JObj [(''decorator'', JStr [])], rule_for ''b'']) # [(''raw'', JArr [])])
       = (Some (Error_NoDecorator ''console''), r1)"
    by (rule t[THEN conjunct2, THEN conjunct1, THEN spec, THEN spec, THEN spec, THEN spec, THEN mp, OF 2])
  have c: "loadRules plugins_loaded
       (?pre @ (''console'', JArr [rule_for ''a'', rule_for ''missing'', rule_for ''b'']) # [(''raw'', JArr [])])
       = (Some (Error_NonExistentDecorator ''console'' (JStr ''missing'')), r1)"
    by (rule t[THEN conjunct2, THEN conjunct2, THEN conjunct1, THEN spec, THEN spec, THEN spec, THEN spec, THEN mp, OF 3])
  have d: "rules r1 ''console'' = None" "decorations r1 ''console'' = None"
    using t[of JNull, THEN conjunct2, THEN conjunct2, THEN conjunct2, THEN conjunct2]
    by (simp_all add: plugins_loaded_fields)
  from loadRules_other[OF pre, of "''raw''"]
  have e: "rules r1 ''raw'' = None" "decorations r1 ''raw'' = None"
    by (simp_all add: plugins_loaded_fields)
  have f: "getRules r1 (JStr ''file'') = JArr [rule_for ''a'', rule_for ''b'']"
    using getRules_after_loadRules[OF pre] by simp
  from pre a b c d e f show ?thesis
    by (intro exI[of _ r1] conjI)
qed

section \<open>What a compiled pipeline is bound to\<close>

lemma reduce_map: "reduce f acc (map g xs) = reduce (\<lambda>a x. f a (g x)) acc xs"
  by (induction xs arbitrary: acc) (auto split: sum.splits)

lemma decoratorFunctions_steps:
  "decoratorFunctions rs = Inr fs \<Longrightarrow>
     \<exists>steps.
       list_all2 (\<lambda>rule step. get_prop rule ''decorator'' = Inr (fst step) \<and>
                               get_prop rule ''config'' = Inr (snd step)) rs steps \<and>
       fs = map (\<lambda>step ds message options.
                   call_decorate (map_get ds (fst step)) message (or_empty_object (snd step)) options)
              steps"
proof (induction rs arbitrary: fs)
  case Nil
  then show ?case by simp
next
  case (Cons rule rs)
  from decoratorFunctions_Cons_success[OF Cons.prems] obtain f fs' where
    fs: "fs = f # fs'" and f: "decorator_function rule = Inr f"
    and fs': "decoratorFunctions rs = Inr fs'"
    by blast
  from decorator_function_success[OF f] obtain d c where
    dc: "get_prop rule ''decorator'' = Inr d" "get_prop rule ''config'' = Inr c"
    and f_eq: "f = (\<lambda>ds message options.
              call_decorate (map_get ds d) message (or_empty_object c) options)"
    by blast
  from Cons.IH[OF fs'] obtain steps where
    st: "list_all2 (\<lambda>rule step. get_prop rule ''decorator'' = Inr (fst step) \<and>
                               get_prop rule ''config'' = Inr (snd step)) rs steps"
    and fs'_eq: "fs' = map (\<lambda>step ds message options.
                   call_decorate (map_get ds (fst step)) message (or_empty_object (snd step)) options)
              steps"
    by blast
  show ?case
    by (rule exI[of _ "(d, c) # steps"]) (simp add: fs f_eq fs'_eq st dc)
qed

subsection \<open>The order of the steps\<close>

lemma check_rules_steps_registered:
  "check_rules ds ident rs = None \<Longrightarrow>
   list_all2 (\<lambda>rule step. get_prop rule ''decorator'' = Inr (fst step) \<and>
                           get_prop rule ''config'' = Inr (snd step)) rs steps \<Longrightarrow>
   \<forall>step \<in> set steps. map_has ds (fst step)"
proof (induction rs arbitrary: steps)
  case Nil
  then show ?case by simp
next
  case (Cons rule rs)
  from Cons.prems(2) obtain step rest where steps: "steps = step # rest"
    and h: "get_prop rule ''decorator'' = Inr (fst step)"
    and t: "list_all2 (\<lambda>rule step. get_prop rule ''decorator'' = Inr (fst step) \<and>
                           get_prop rule ''config'' = Inr (snd step)) rs rest"
    by (auto simp: list_all2_Cons1)
  from check_rules_Cons_ok[OF Cons.prems(1)] h have "map_has ds (fst step)"
    and "check_rules ds ident rs = None"
    by auto
  with Cons.IH[OF _ t] steps show ?case by simp
qed

lemma more_loaded_ok: "loadRules plugins_loaded more_rules = (None, more_loaded)"
  by (simp add: more_loaded_def plugins_loaded_fields js_defs load_defs more_rules_def rule_for_def)

lemma more_loaded_decorators: "decorators more_loaded = decorators plugins_loaded"
  using loadRules_decorators[OF more_loaded_ok] .

text \<open>
  C1, as the code has it. For every identifier whose rule list (of any length) has been
  compiled by \<^verbatim>\<open>loadRules\<close>, the compiled function is the left-to-right fold of the
  rules' steps over the message: \<open>steps\<close> are the \<^verbatim>\<open>decorator\<close> name and the
  \<^verbatim>\<open>config\<close> read from each rule, in the order of the list, and every name is registered
  when loading ends; the first step receives the original message and each later step the
  result of the step before it, an exception of a step ending the run. For two rules
  \<^verbatim>\<open>[A, B]\<close> this is \<^verbatim>\<open>B.decorate(A.decorate(m, cfgA, options), cfgB, options)\<close>.
  In every step \<open>cfg\<close> is the rule's \<^verbatim>\<open>config || {}\<close>, and \<^verbatim>\<open>options\<close> are the call
  options, except that they are \<^verbatim>\<open>{}\<close> when the call has none (\<^verbatim>\<open>undefined\<close>): the
  parameter's default \<^verbatim>\<open>options = {}\<close>.
\<close>

theorem pipeline_left_to_right:
  assumes "loadRules r cfg = (None, r')"
    and "distinct (map fst cfg)"
    and "(ident, JArr rs) \<in> set cfg"
  shows "\<exists>pipe steps.
           decorations r' ident = Some pipe \<and>
           list_all2 (\<lambda>rule step. get_prop rule ''decorator'' = Inr (fst step) \<and>
                                   get_prop rule ''config'' = Inr (snd step)) rs steps \<and>
           (\<forall>step \<in> set steps. \<exists>p. getDecorator r' (fst step) = Some p) \<and>
           (\<forall>ds m opts. pipe ds m opts =
              reduce (\<lambda>acc step. call_decorate (map_get ds (fst step)) acc
                                    (or_empty_object (snd step))
                                    (if opts = JUndefined then JObj [] else opts)) m steps) \<and>
           (\<forall>ds m opts a rest. steps = a # rest \<longrightarrow>
              pipe ds m opts =
                and_then (call_decorate (map_get ds (fst a)) m (or_empty_object (snd a))
                            (if opts = JUndefined then JObj [] else opts))
                  (\<lambda>m1. reduce (\<lambda>acc step. call_decorate (map_get ds (fst step)) acc
                                       (or_empty_object (snd step))
                                       (if opts = JUndefined then JObj [] else opts)) m1 rest)) \<and>
           (\<forall>ds m opts a b. steps = [a, b] \<longrightarrow>
              pipe ds m opts =
                and_then (call_decorate (map_get ds (fst a)) m (or_empty_object (snd a))
                            (if opts = JUndefined then JObj [] else opts))
                  (\<lambda>m1. call_decorate (map_get ds (fst b)) m1 (or_empty_object (snd b))
                            (if opts = JUndefined then JObj [] else opts)))"
proof -
  from loadRules_success_entry[OF assms] obtain fs where
    chk: "check_rules (decorators r) ident rs = None"
    and fs: "decoratorFunctions rs = Inr fs"
    and pipe: "decorations r' ident = Some (decorateMessage fs)"
    by auto
  from decoratorFunctions_steps[OF fs] obtain steps where
    st: "list_all2 (\<lambda>rule step. get_prop rule ''decorator'' = Inr (fst step) \<and>
                               get_prop rule ''config'' = Inr (snd step)) rs steps"
    and fs_eq: "fs = map (\<lambda>step ds message options.
                   call_decorate (map_get ds (fst step)) message (or_empty_object (snd step)) options)
              steps"
    by blast
  let ?step = "\<lambda>ds opts acc step. call_decorate (map_get ds (fst step)) acc
                                    (or_empty_object (snd step))
                                    (if opts = JUndefined then JObj [] else opts)"
  have run: "decorateMessage fs ds m opts = reduce (?step ds opts) m steps" for ds m opts
    by (simp add: decorateMessage_def fs_eq reduce_map default_options_def)
  from check_rules_steps_registered[OF chk st] loadRules_decorators[OF assms(1)]
  have reg: "\<forall>step \<in> set steps. \<exists>p. getDecorator r' (fst step) = Some p"
    by (auto simp: map_has_def getDecorator_def)
  have first: "decorateMessage fs ds m opts =
      and_then (?step ds opts m a) (\<lambda>m1. reduce (?step ds opts) m1 rest)"
    if "steps = a # rest" for ds m opts a rest
    unfolding run that by (simp add: and_then_case)
  have two: "decorateMessage fs ds m opts =
      and_then (?step ds opts m a) (\<lambda>m1. ?step ds opts m1 b)"
    if "steps = [a, b]" for ds m opts a b
    unfolding run that by (simp add: and_then_case split: sum.splits)
  from pipe st reg run first two show ?thesis
    by (intro exI[of _ "decorateMessage fs"] exI[of _ steps] conjI) blast+
qed

theorem pipeline_left_to_right_witness:
  "\<exists>long echo.
     loadRules plugins_loaded more_rules = (None, more_loaded) \<and>
     decorations more_loaded ''long'' = Some long \<and>
     decorations more_loaded ''echo'' = Some echo \<and>
     long (decorators more_loaded) (JStr ''x'') (JObj []) = Inr (JStr ''xaba'') \<and>
     long (decorators more_loaded) (JStr ''x'') JUndefined = Inr (JStr ''xaba'') \<and>
     echo (decorators more_loaded) (JStr ''x'') (JStr ''utf8'') = Inr (JStr ''utf8a'') \<and>
     echo (decorators more_loaded) (JStr ''x'') JUndefined = Inr (JObj [])"
proof -
  have d: "distinct (map fst more_rules)"
    and ml: "(''long'', JArr [rule_for ''a'', rule_for ''b'', rule_for ''a'']) \<in> set more_rules"
    and me: "(''echo'', JArr [rule_for ''opts'', rule_for ''a'']) \<in> set more_rules"
    by (simp_all add: more_rules_def)
  from pipeline_left_to_right[OF more_loaded_ok d ml]
  obtain long steps where l: "decorations more_loaded ''long'' = Some long"
    and st: "list_all2 (\<lambda>rule step. get_prop rule ''decorator'' = Inr (fst step) \<and>
                                   get_prop rule ''config'' = Inr (snd step))
               [rule_for ''a'', rule_for ''b'', rule_for ''a''] steps"
    and run: "\<And>ds m opts. long ds m opts =
              reduce (\<lambda>acc step. call_decorate (map_get ds (fst step)) acc
                                    (or_empty_object (snd step))
                                    (if opts = JUndefined then JObj [] else opts)) m steps"
    by blast
  from st have steps:
    "steps = [(JStr ''a'', JUndefined), (JStr ''b'', JUndefined), (JStr ''a'', JUndefined)]"
    by (auto simp: list_all2_Cons1 rule_for_def get_prop_def prod_eq_iff)
  have long: "long (decorators more_loaded) (JStr ''x'') (JObj []) = Inr (JStr ''xaba'')"
    "long (decorators more_loaded) (JStr ''x'') JUndefined = Inr (JStr ''xaba'')"
    unfolding run steps
    by (simp_all add: more_loaded_decorators plugins_loaded_fields js_defs suffix_plugin_def)
  from pipeline_left_to_right[OF more_loaded_ok d me]
  obtain echo steps' where e: "decorations more_loaded ''echo'' = Some echo"
    and st': "list_all2 (\<lambda>rule step. get_prop rule ''decorator'' = Inr (fst step) \<and>
                                   get_prop rule ''config'' = Inr (snd step))
               [rule_for ''opts'', rule_for ''a''] steps'"
    and two: "\<And>ds m opts a b. steps' = [a, b] \<Longrightarrow>
              echo ds m opts =
                and_then (call_decorate (map_get ds (fst a)) m (or_empty_object (snd a))
                            (if opts = JUndefined then JObj [] else opts))
                  (\<lambda>m1. call_decorate (map_get ds (fst b)) m1 (or_empty_object (snd b))
                            (if opts = JUndefined then JObj [] else opts))"
    by blast
  from st' have steps': "steps' = [(JStr ''opts'', JUndefined), (JStr ''a'', JUndefined)]"
    by (auto simp: list_all2_Cons1 rule_for_def get_prop_def prod_eq_iff)
  have echo: "echo (decorators more_loaded) (JStr ''x'') (JStr ''utf8'') = Inr (JStr ''utf8a'')"
    "echo (decorators more_loaded) (JStr ''x'') JUndefined = Inr (JObj [])"
    unfolding two[OF steps']
    by (simp_all add: more_loaded_decorators plugins_loaded_fields js_defs suffix_plugin_def
        options_plugin_def)
  from more_loaded_ok l e long echo show ?thesis
    by (intro exI[of _ long] exI[of _ echo] conjI)
qed

lemma more_loaded_echo:
  "run_decoration r (decorations more_loaded ''echo'') m opts =
     and_then (call_decorate (decorators r ''opts'') m (JObj []) (default_options opts))
       (\<lambda>m1. call_decorate (decorators r ''a'') m1 (JObj []) (default_options opts))"
  apply (simp add: more_loaded_def plugins_loaded_fields load_defs more_rules_def rule_for_def
      get_prop_def or_empty_object_def map_get_def map_has_def run_decoration_def)
  apply (auto split: sum.splits)
  done

text \<open>
  C1, as the claim has it, fails for a call without options. The rules
  \<^verbatim>\<open>[opts, a]\<close> are compiled for \<^verbatim>\<open>echo\<close>; \<^verbatim>\<open>opts\<close> answers with the options it is
  given and \<^verbatim>\<open>a\<close> leaves a message that is not a string as it is. Called with the
  message \<^verbatim>\<open>"x"\<close> and \<^verbatim>\<open>undefined\<close> options the compiled function returns \<^verbatim>\<open>{}\<close>,
  while \<^verbatim>\<open>opts.decorate("x", {}, undefined)\<close> is \<^verbatim>\<open>undefined\<close> and
  \<^verbatim>\<open>a.decorate(undefined, {}, undefined)\<close> is \<^verbatim>\<open>undefined\<close>: the claim's
  \<^verbatim>\<open>B.decorate(A.decorate(m, cfgA, o), cfgB, o)\<close> is not the result.
\<close>

theorem pipeline_options_default_counterexample:
  "loadRules plugins_loaded more_rules = (None, more_loaded) \<and>
   run_decoration more_loaded (getDecoration more_loaded (JStr ''echo'')) (JStr ''x'') JUndefined
     = Inr (JObj []) \<and>
   call_decorate (getDecorator more_loaded (JStr ''opts'')) (JStr ''x'') (JObj []) JUndefined
     = Inr JUndefined \<and>
   call_decorate (getDecorator more_loaded (JStr ''a'')) JUndefined (JObj []) JUndefined
     = Inr JUndefined"
proof (intro conjI)
  show "loadRules plugins_loaded more_rules = (None, more_loaded)"
    by (rule more_loaded_ok)
  show "run_decoration more_loaded (getDecoration more_loaded (JStr ''echo'')) (JStr ''x'') JUndefined
     = Inr (JObj [])"
    by (simp add: getDecoration_def map_get_def more_loaded_echo more_loaded_decorators
        plugins_loaded_fields js_defs suffix_plugin_def options_plugin_def)
  show "call_decorate (getDecorator more_loaded (JStr ''opts'')) (JStr ''x'') (JObj []) JUndefined
     = Inr JUndefined"
    by (simp add: getDecorator_def map_get_def more_loaded_decorators plugins_loaded_fields
        call_decorate_def options_plugin_def)
  show "call_decorate (getDecorator more_loaded (JStr ''a'')) JUndefined (JObj []) JUndefined
     = Inr JUndefined"
    by (simp add: getDecorator_def map_get_def more_loaded_decorators plugins_loaded_fields
        call_decorate_def suffix_plugin_def)
qed

subsection \<open>Names and configurations are bound, instances are not\<close>

text \<open>
  C3, as the code has it. The function compiled for an identifier is fixed by the
  \<^verbatim>\<open>decorator\<close> names and the \<^verbatim>\<open>config\<close> values read from the rules when they are
  loaded (\<open>steps\<close>), and a later \<^verbatim>\<open>loadDecorators\<close> call changes neither the stored
  function nor the stored rules. The plugin instances are not part of it: each step looks
  its name up in the registry's plugins as they are when the function runs (\<open>ds\<close>).
\<close>

theorem compiled_pipeline_binds_names_and_configs:
  assumes "loadRules r cfg = (None, r')"
    and "distinct (map fst cfg)"
    and "(ident, JArr rs) \<in> set cfg"
  shows "\<exists>pipe steps.
           decorations r' ident = Some pipe \<and>
           list_all2 (\<lambda>rule step. get_prop rule ''decorator'' = Inr (fst step) \<and>
                                   get_prop rule ''config'' = Inr (snd step)) rs steps \<and>
           (\<forall>ds m opts. pipe ds m opts =
              reduce (\<lambda>acc step. call_decorate (map_get ds (fst step)) acc
                                    (or_empty_object (snd step)) (default_options opts)) m steps) \<and>
           (\<forall>nr rf root pcfg eo r''.
              loadDecorators nr r' rf root pcfg = (eo, r'') \<longrightarrow>
                decorations r'' ident = Some pipe \<and> rules r'' ident = Some rs)"
proof -
  from loadRules_success_entry[OF assms] obtain fs where
    fs: "decoratorFunctions rs = Inr fs"
    and rl: "rules r' ident = Some rs"
    and pipe: "decorations r' ident = Some (decorateMessage fs)"
    by auto
  from decoratorFunctions_steps[OF fs] obtain steps where
    st: "list_all2 (\<lambda>rule step. get_prop rule ''decorator'' = Inr (fst step) \<and>
                               get_prop rule ''config'' = Inr (snd step)) rs steps"
    and fs_eq: "fs = map (\<lambda>step ds message options.
                   call_decorate (map_get ds (fst step)) message (or_empty_object (snd step)) options)
              steps"
    by blast
  have run: "decorateMessage fs ds m opts =
      reduce (\<lambda>acc step. call_decorate (map_get ds (fst step)) acc
                            (or_empty_object (snd step)) (default_options opts)) m steps"
    for ds m opts
    by (simp add: decorateMessage_def fs_eq reduce_map)
  have later: "decorations r'' ident = Some (decorateMessage fs) \<and> rules r'' ident = Some rs"
    if "loadDecorators nr r' rf root pcfg = (eo, r'')" for nr rf root pcfg eo r''
    using loadDecorators_decorations[OF that] loadDecorators_frame[OF that] pipe rl by simp
  from pipe st run later show ?thesis by blast
qed

lemma reregistered_ok:
  "loadDecorators example_require rules_loaded example_requireFn ''/srv''
     [plugin_spec ''a'' ''pkg.Bang''] = (None, reregistered)"
  by (simp add: reregistered_def plugin_spec_def js_defs load_defs example_requireFn_def
      suffix_plugin_def)

lemma reregistered_fields:
  "decorators reregistered =
     (decorators rules_loaded)(''a'' \<mapsto> (suffix_plugin ''!'')\<lparr>name := Some ''a'', configured := [JObj []]\<rparr>)"
  "decorations reregistered = decorations rules_loaded"
  "rules reregistered = rules rules_loaded"
  by (simp_all add: reregistered_def plugin_spec_def js_defs load_defs example_requireFn_def
      suffix_plugin_def)

theorem compiled_pipeline_binds_names_and_configs_witness:
  "\<exists>pipe. loadRules plugins_loaded example_rules = (None, rules_loaded) \<and>
     decorations rules_loaded ''file'' = Some pipe \<and>
     loadDecorators example_require rules_loaded example_requireFn ''/srv''
       [plugin_spec ''a'' ''pkg.Bang''] = (None, reregistered) \<and>
     decorations reregistered ''file'' = Some pipe \<and>
     rules reregistered ''file'' = Some [rule_for ''a'', rule_for ''b''] \<and>
     pipe (decorators rules_loaded) (JStr ''x'') JUndefined = Inr (JStr ''xab'') \<and>
     pipe (decorators reregistered) (JStr ''x'') JUndefined = Inr (JStr ''x!b'')"
proof -
  have d: "distinct (map fst example_rules)"
    and m: "(''file'', JArr [rule_for ''a'', rule_for ''b'']) \<in> set example_rules"
    by (simp_all add: example_rules_def)
  from compiled_pipeline_binds_names_and_configs[OF rules_loaded_ok d m]
  obtain pipe steps where p: "decorations rules_loaded ''file'' = Some pipe"
    and st: "list_all2 (\<lambda>rule step. get_prop rule ''decorator'' = Inr (fst step) \<and>
                                   get_prop rule ''config'' = Inr (snd step))
               [rule_for ''a'', rule_for ''b''] steps"
    and run: "\<And>ds m opts. pipe ds m opts =
              reduce (\<lambda>acc step. call_decorate (map_get ds (fst step)) acc
                                    (or_empty_object (snd step)) (default_options opts)) m steps"
    and later: "\<And>nr rf root pcfg eo r''.
              loadDecorators nr rules_loaded rf root pcfg = (eo, r'') \<Longrightarrow>
                decorations r'' ''file'' = Some pipe \<and> rules r'' ''file'' = Some [rule_for ''a'', rule_for ''b'']"
    by blast
  from st have steps: "steps = [(JStr ''a'', JUndefined), (JStr ''b'', JUndefined)]"
    by (auto simp: list_all2_Cons1 rule_for_def get_prop_def prod_eq_iff)
  have "pipe (decorators rules_loaded) (JStr ''x'') JUndefined = Inr (JStr ''xab'')"
    "pipe (decorators reregistered) (JStr ''x'') JUndefined = Inr (JStr ''x!b'')"
    unfolding run steps
    by (simp_all add: reregistered_fields rules_loaded_fields(1) plugins_loaded_fields js_defs
        suffix_plugin_def)
  with p later[OF reregistered_ok] rules_loaded_ok reregistered_ok show ?thesis by blast
qed

text \<open>
  C3, as the claim has it, fails: the function compiled for \<^verbatim>\<open>file\<close> from the rules
  \<^verbatim>\<open>[a, b]\<close> appends \<^verbatim>\<open>ab\<close> while the plugin \<^verbatim>\<open>a\<close> is the one the rules were
  compiled against; after \<^verbatim>\<open>loadDecorators\<close> has registered another plugin under the
  name \<^verbatim>\<open>a\<close>, the same function, still the one stored for \<^verbatim>\<open>file\<close>, appends
  \<^verbatim>\<open>!b\<close>.
\<close>

theorem compiled_pipeline_rebinds_counterexample:
  "loadRules plugins_loaded example_rules = (None, rules_loaded) \<and>
   loadDecorators example_require rules_loaded example_requireFn ''/srv''
     [plugin_spec ''a'' ''pkg.Bang''] = (None, reregistered) \<and>
   getDecoration reregistered (JStr ''file'') = getDecoration rules_loaded (JStr ''file'') \<and>
   run_decoration rules_loaded (getDecoration rules_loaded (JStr ''file'')) (JStr ''x'') JUndefined
     = Inr (JStr ''xab'') \<and>
   run_decoration reregistered (getDecoration rules_loaded (JStr ''file'')) (JStr ''x'') JUndefined
     = Inr (JStr ''x!b'')"
proof (intro conjI)
  show "loadRules plugins_loaded example_rules = (None, rules_loaded)"
    by (rule rules_loaded_ok)
  show "loadDecorators example_require rules_loaded example_requireFn ''/srv''
     [plugin_spec ''a'' ''pkg.Bang''] = (None, reregistered)"
    by (rule reregistered_ok)
  show "getDecoration reregistered (JStr ''file'') = getDecoration rules_loaded (JStr ''file'')"
    by (simp add: getDecoration_def reregistered_fields)
  show "run_decoration rules_loaded (getDecoration rules_loaded (JStr ''file'')) (JStr ''x'') JUndefined
     = Inr (JStr ''xab'')"
    by (simp add: getDecoration_def map_get_def run_decoration_file rules_loaded_fields(1)
        plugins_loaded_fields js_defs suffix_plugin_def)
  show "run_decoration reregistered (getDecoration rules_loaded (JStr ''file'')) (JStr ''x'') JUndefined
     = Inr (JStr ''x!b'')"
    by (simp add: getDecoration_def map_get_def run_decoration_file reregistered_fields
        rules_loaded_fields(1) plugins_loaded_fields js_defs suffix_plugin_def)
qed

section \<open>The two variants\<close>

lemma plugins_loaded_lazy_ok:
  "loadDecorators example_require new_registry_base example_requireFn ''/srv'' example_plugins
     = (None, plugins_loaded_lazy)"
  by (simp add: plugins_loaded_lazy_def js_defs load_defs example_defs)

lemma plugins_loaded_lazy_fields:
  "decorators plugins_loaded_lazy = decorators plugins_loaded"
  "rules plugins_loaded_lazy = Map.empty"
  by (simp_all add: plugins_loaded_lazy_def plugins_loaded_def js_defs load_defs example_defs)

lemma rules_loaded_lazy_ok:
  "loadRules_lazy plugins_loaded_lazy example_rules = (None, rules_loaded_lazy)"
  by (simp add: rules_loaded_lazy_def plugins_loaded_lazy_fields plugins_loaded_fields js_defs load_defs
      example_rules_def rule_for_def)

lemma rules_loaded_lazy_fields:
  "decorators rules_loaded_lazy = decorators rules_loaded"
  "rules rules_loaded_lazy = rules rules_loaded"
  by (simp_all add: rules_loaded_lazy_def rules_loaded_fields plugins_loaded_lazy_fields plugins_loaded_fields
      js_defs load_defs example_rules_def rule_for_def)

text \<open>
  C8. Both variants are taken through the same calls: the plugins \<^verbatim>\<open>a\<close>, \<^verbatim>\<open>b\<close>,
  \<^verbatim>\<open>opts\<close> are loaded, then the rules \<^verbatim>\<open>{ file: [a, b], console: [opts] }\<close>; the
  registries then hold the same plugins and the same rules. For the transport
  \<^verbatim>\<open>console\<close> both return a class, and \<^verbatim>\<open>write("x", "utf8")\<close> differs: in the first
  variant the plugin receives the call options and the stream is handed \<^verbatim>\<open>"utf8"\<close>, in
  the second the plugin receives no options and the stream is handed \<^verbatim>\<open>undefined\<close>. For
  a transport \<^verbatim>\<open>other\<close>, which has no rules, the first variant throws and the second
  returns a class that writes the message as it is.
\<close>

theorem variants_diverge:
  "loadDecorators example_require new_registry example_requireFn ''/srv'' example_plugins
     = (None, plugins_loaded) \<and>
   loadDecorators example_require new_registry_base example_requireFn ''/srv'' example_plugins
     = (None, plugins_loaded_lazy) \<and>
   loadRules plugins_loaded example_rules = (None, rules_loaded) \<and>
   loadRules_lazy plugins_loaded_lazy example_rules = (None, rules_loaded_lazy) \<and>
   decorators rules_loaded_lazy = decorators rules_loaded \<and>
   rules rules_loaded_lazy = rules rules_loaded \<and>
   write_decorated (decorate rules_loaded (log_transport (JStr ''console'')))
       (decorators rules_loaded) (JStr ''x'') (JStr ''utf8'') []
     = Inr [(JStr ''utf8'', JStr ''utf8'')] \<and>
   write_decorated (decorate_lazy rules_loaded_lazy (log_transport (JStr ''console'')))
       (decorators rules_loaded_lazy) (JStr ''x'') (JStr ''utf8'') []
     = Inr [(JUndefined, JStr ''utf8'')] \<and>
   write_decorated (decorate rules_loaded (log_transport (JStr ''other'')))
       (decorators rules_loaded) (JStr ''x'') (JStr ''utf8'') []
     = Inl (Error_NoDecorations (JStr ''other'')) \<and>
   write_decorated (decorate_lazy rules_loaded_lazy (log_transport (JStr ''other'')))
       (decorators rules_loaded_lazy) (JStr ''x'') (JStr ''utf8'') []
     = Inr [(JStr ''x'', JStr ''utf8'')]"
proof -
  obtain d where d: "decorations rules_loaded ''console'' = Some d"
    using rules_loaded_compiled by blast
  with run_decoration_console[of rules_loaded "JStr ''x''" "JStr ''utf8''"]
  have run: "d (decorators rules_loaded) (JStr ''x'') (JStr ''utf8'') = Inr (JStr ''utf8'')"
    by (simp add: run_decoration_def rules_loaded_fields(1) plugins_loaded_fields js_defs
        options_plugin_def)
  have 1: "write_decorated (decorate rules_loaded (log_transport (JStr ''console'')))
       (decorators rules_loaded) (JStr ''x'') (JStr ''utf8'') []
     = Inr [(JStr ''utf8'', JStr ''utf8'')]"
    using decorate_compiled[of "log_transport (JStr ''console'')" "''console''" rules_loaded d] d run
    by (simp add: write_decorated_def log_transport_def)
  have 2: "write_decorated (decorate_lazy rules_loaded_lazy (log_transport (JStr ''console'')))
       (decorators rules_loaded_lazy) (JStr ''x'') (JStr ''utf8'') []
     = Inr [(JUndefined, JStr ''utf8'')]"
    by (simp add: write_decorated_def decorate_lazy_def Let_def log_transport_def getRules_def
        rules_loaded_lazy_fields rules_loaded_fields(1,2) plugins_loaded_fields js_defs
        decorator_function_lazy_def rule_for_def options_plugin_def)
  have 3: "write_decorated (decorate rules_loaded (log_transport (JStr ''other'')))
       (decorators rules_loaded) (JStr ''x'') (JStr ''utf8'') []
     = Inl (Error_NoDecorations (JStr ''other''))"
    by (simp add: write_decorated_def decorate_def Let_def log_transport_def getDecoration_def
        map_get_def rules_loaded_fields(3))
  have 4: "write_decorated (decorate_lazy rules_loaded_lazy (log_transport (JStr ''other'')))
       (decorators rules_loaded_lazy) (JStr ''x'') (JStr ''utf8'') []
     = Inr [(JStr ''x'', JStr ''utf8'')]"
    by (simp add: write_decorated_def decorate_lazy_def Let_def log_transport_def getRules_def
        rules_loaded_lazy_fields rules_loaded_fields(1,2) js_defs)
  from plugins_loaded_ok plugins_loaded_lazy_ok rules_loaded_ok rules_loaded_lazy_ok
    rules_loaded_lazy_fields 1 2 3 4
  show ?thesis by (intro conjI)
qed

end
